theory Spec2Isabelle
  imports Main
begin

text \<open>
  The bilingual translator of Word documents, \<open>src/doc/translate.py\<close>: its text
  detection, the grouping of indented paragraphs, the translation of paragraphs and
  table cells, the cloning of flowchart tables and the pass over textboxes, as functions
  on a model of the document tree, and what holds of them.
\<close>

section \<open>Text: Python strings as lists of code points\<close>

text \<open>
  A Python \<open>str\<close> is a sequence of Unicode code points, and the program tests
  code points far beyond one byte (the CJK block, the full-width colon), so a
  character is a natural number and a string is a list of them.
\<close>

type_synonym uchar = nat
type_synonym ustring = "nat list"

definition u :: "string \<Rightarrow> ustring" where
  "u s = map of_char s"

text \<open>\<open>str.isspace\<close>, the characters that \<open>str.strip()\<close> removes.\<close>

definition is_space :: "uchar \<Rightarrow> bool" where
  "is_space c \<longleftrightarrow>
     (9 \<le> c \<and> c \<le> 13) \<or> (28 \<le> c \<and> c \<le> 32) \<or> c = 133 \<or> c = 160 \<or> c = 5760 \<or>
     (8192 \<le> c \<and> c \<le> 8202) \<or> c = 8232 \<or> c = 8233 \<or> c = 8239 \<or> c = 8287 \<or> c = 12288"

definition lstrip :: "ustring \<Rightarrow> ustring" where
  "lstrip s = dropWhile is_space s"

definition rstrip :: "ustring \<Rightarrow> ustring" where
  "rstrip s = rev (dropWhile is_space (rev s))"

definition strip :: "ustring \<Rightarrow> ustring" where
  "strip s = rstrip (lstrip s)"

text \<open>\<open>s.lstrip(chars)\<close> and \<open>s.rstrip(chars)\<close> with an explicit character set.\<close>

definition lstrip_chars :: "uchar list \<Rightarrow> ustring \<Rightarrow> ustring" where
  "lstrip_chars cs s = dropWhile (\<lambda>c. c \<in> set cs) s"

definition rstrip_chars :: "uchar list \<Rightarrow> ustring \<Rightarrow> ustring" where
  "rstrip_chars cs s = rev (dropWhile (\<lambda>c. c \<in> set cs) (rev s))"

text \<open>\<open>sep.join(parts)\<close>.\<close>

fun join :: "ustring \<Rightarrow> ustring list \<Rightarrow> ustring" where
  "join sep [] = []"
| "join sep [x] = x"
| "join sep (x # y # ys) = x @ sep @ join sep (y # ys)"

text \<open>
  The decimal digits \<open>\d\<close> stands for in a \<open>str\<close> pattern: the code points of
  category Nd (Unicode 14, the table of CPython 3.11), as inclusive ranges.
\<close>

definition nd_ranges :: "(nat \<times> nat) list" where
  "nd_ranges =
    [(48, 57), (1632, 1641), (1776, 1785), (1984, 1993), (2406, 2415), (2534, 2543),
     (2662, 2671), (2790, 2799), (2918, 2927), (3046, 3055), (3174, 3183), (3302, 3311),
     (3430, 3439), (3558, 3567), (3664, 3673), (3792, 3801), (3872, 3881), (4160, 4169),
     (4240, 4249), (6112, 6121), (6160, 6169), (6470, 6479), (6608, 6617), (6784, 6793),
     (6800, 6809), (6992, 7001), (7088, 7097), (7232, 7241), (7248, 7257), (42528, 42537),
     (43216, 43225), (43264, 43273), (43472, 43481), (43504, 43513), (43600, 43609),
     (44016, 44025), (65296, 65305), (66720, 66729), (68912, 68921), (69734, 69743),
     (69872, 69881), (69942, 69951), (70096, 70105), (70384, 70393), (70736, 70745),
     (70864, 70873), (71248, 71257), (71360, 71369), (71472, 71481), (71904, 71913),
     (72016, 72025), (72784, 72793), (73040, 73049), (73120, 73129), (92768, 92777),
     (92864, 92873), (93008, 93017), (120782, 120831), (123200, 123209), (123632, 123641),
     (125264, 125273), (130032, 130041)]"

definition is_digit :: "uchar \<Rightarrow> bool" where
  "is_digit c = list_ex (\<lambda>(lo, hi). lo \<le> c \<and> c \<le> hi) nd_ranges"

section \<open>Regular expressions, as \<open>re.match\<close> runs them\<close>

text \<open>
  The patterns of the program are sequences of single-character atoms, each taken
  once, one or more times, or any number of times, and the end anchor. The matcher
  is the backtracking one of \<open>re\<close>: a repetition takes as many characters as it
  can and gives them back one at a time while the rest of the pattern fails. It
  returns the text consumed by each item, so that a group is read off the items it
  spans.
\<close>

datatype atom = Digit | Chr uchar | AnyChar | OneOf "uchar list" | NoneOf "uchar list"

datatype rx_item = One atom | Plus atom | Star atom | Eol

fun accepts :: "atom \<Rightarrow> uchar \<Rightarrow> bool" where
  "accepts Digit c = is_digit c"
| "accepts (Chr d) c = (c = d)"
| "accepts AnyChar c = (c \<noteq> 10)"
| "accepts (OneOf cs) c = (c \<in> set cs)"
| "accepts (NoneOf cs) c = (c \<notin> set cs)"

fun grow :: "uchar \<Rightarrow> ustring list \<Rightarrow> ustring list" where
  "grow c [] = [[c]]"
| "grow c (g # gs) = (c # g) # gs"

fun rmatch :: "rx_item list \<Rightarrow> ustring \<Rightarrow> ustring list option" where
  "rmatch [] s = Some []"
| "rmatch (Eol # r) s =
     (if s = [] \<or> s = [10] then map_option (Cons []) (rmatch r s) else None)"
| "rmatch (One a # r) [] = None"
| "rmatch (One a # r) (c # s) =
     (if accepts a c then map_option (Cons [c]) (rmatch r s) else None)"
| "rmatch (Plus a # r) [] = None"
| "rmatch (Plus a # r) (c # s) =
     (if accepts a c then map_option (grow c) (rmatch (Star a # r) s) else None)"
| "rmatch (Star a # r) [] = map_option (Cons []) (rmatch r [])"
| "rmatch (Star a # r) (c # s) =
     (if accepts a c
      then (case rmatch (Star a # r) s of
              Some gs \<Rightarrow> Some (grow c gs)
            | None \<Rightarrow> map_option (Cons []) (rmatch r (c # s)))
      else map_option (Cons []) (rmatch r (c # s)))"

section \<open>TextDetector\<close>

definition is_chinese :: "ustring \<Rightarrow> bool" where
  "is_chinese text = list_ex (\<lambda>c. 0x4e00 \<le> c \<and> c \<le> 0x9fff) text"

definition number_patterns :: "rx_item list list" where
  "number_patterns =
    [[Plus Digit, One (Chr 46), Plus Digit, One (Chr 46), Plus Digit, One (Chr 46), Plus Digit],
     [Plus Digit, One (Chr 46), Plus Digit, One AnyChar, Plus Digit],
     [Plus Digit, One (Chr 46), Plus Digit],
     [Plus Digit, One (Chr 46)]]"

fun first_match :: "rx_item list list \<Rightarrow> ustring \<Rightarrow> ustring option" where
  "first_match [] raw = None"
| "first_match (p # ps) raw =
     (case rmatch p raw of
        Some gs \<Rightarrow> Some (concat gs)
      | None \<Rightarrow> first_match ps raw)"

definition get_step_number :: "ustring \<Rightarrow> ustring" where
  "get_step_number raw =
     (case first_match number_patterns (lstrip raw) of
        Some m \<Rightarrow> rstrip_chars [46] m
      | None \<Rightarrow> [])"

definition check_colon_format :: "ustring \<Rightarrow> bool \<times> bool \<times> ustring \<times> ustring" where
  "check_colon_format text =
     (case rmatch [Plus (NoneOf [58, 65306]), One (OneOf [65306, 58]), Star AnyChar, Eol]
             (strip text) of
        Some gs \<Rightarrow>
          (let before_colon = strip (gs ! 0); after_colon = strip (gs ! 2)
           in (True, after_colon \<noteq> [], before_colon, after_colon))
      | None \<Rightarrow> (False, False, [], []))"

section \<open>The document tree\<close>

text \<open>
  A run carries text and possibly a drawing (\<open>w:drawing\<close> or \<open>w:pict\<close>); a
  drawing may hold textboxes (\<open>w:txbxContent\<close>), a plain picture holds none. The
  text of a run is the text of its own \<open>w:t\<close> children, so the text inside a
  textbox is not part of it. Assigning \<open>run.text\<close> replaces the content of the
  run: python-docx removes every child of \<open>w:r\<close> but \<open>w:rPr\<close>, the drawing
  included, which is why the program guards its assignments with \<open>has_picture\<close>.
  Of the properties of a run the program reads and writes the fonts of \<open>w:rFonts\<close>
  and the sizes \<open>w:sz\<close>, \<open>w:szCs\<close> and \<open>w:szFarEast\<close>; a size is kept as the
  value of its element, in half-points, so that \<open>Pt(n)\<close> is \<open>2 * n\<close>.

  A textbox is kept flat: its runs in document order, each with its \<open>w:t\<close> nodes,
  its \<open>w:sz\<close> and its fonts, and spacing and justification of its paragraphs.
\<close>

record tb_para_format =
  spacing_line :: "nat option"
  spacing_rule :: "ustring option"
  jc :: "ustring option"

record tb_run =
  tr_texts :: "ustring list"
  tr_sz :: "nat option"
  tr_ascii :: "ustring option"
  tr_hAnsi :: "ustring option"
  tr_cs :: "ustring option"

record textbox =
  tb_runs :: "tb_run list"
  tb_paras :: "tb_para_format list"

text \<open>\<open>textbox.findall('.//w:t')\<close>: the text nodes of a textbox, in document order.\<close>

definition tb_texts :: "textbox \<Rightarrow> ustring list" where
  "tb_texts tb = concat (map tr_texts (tb_runs tb))"

text \<open>
  The alignments \<open>add_english_below\<close> can be asked for, and any other value of
  \<open>WD_ALIGN_PARAGRAPH\<close> a paragraph may have.
\<close>

datatype alignment = LEFT | CENTER | RIGHT | JUSTIFY | OTHER nat

record run =
  rtext :: ustring
  rdraw :: "textbox list option"
  r_ascii :: "ustring option"
  r_hAnsi :: "ustring option"
  r_cs :: "ustring option"
  r_eastAsia :: "ustring option"
  r_sz :: "nat option"
  r_szCs :: "nat option"
  r_szFarEast :: "nat option"

record Paragraph =
  runs :: "run list"
  palign :: "alignment option"
  pstyle :: "ustring option"

text \<open>
  A cell holds paragraphs and nested tables, in order. Of a nested table only the
  textboxes matter to the program (no pass visits the paragraphs of a nested table),
  so it is kept as the list of textboxes below it.
\<close>

datatype cell_child = CPara Paragraph | CNested "textbox list"

type_synonym cell = "cell_child list"

text \<open>
  A table has its cells (the \<open>w:tc\<close> elements, in document order) and its rows as
  the program walks them: \<open>row.cells\<close> gives one cell for every grid column of the
  row, so a cell that spans several columns comes several times, and where a cell is
  merged with the one above, the cell above comes in its place. A row is therefore the
  list of the positions, among the cells of the table, of the cells \<open>row.cells\<close>
  gives. The cells are objects: what one visit changes, the next visit finds.
\<close>

record table =
  tcells :: "cell list"
  trows :: "nat list list"

text \<open>The cells in the order of \<open>for row in table.rows: for cell in row.cells\<close>.\<close>

definition visited :: "table \<Rightarrow> nat list" where
  "visited t = concat (trows t)"

text \<open>One visit that changes the object at a position (a position names an object).\<close>

definition visit :: "('a \<Rightarrow> 'a) \<Rightarrow> nat \<Rightarrow> 'a list \<Rightarrow> 'a list" where
  "visit f k cs = (if k < length cs then cs[k := f (cs ! k)] else cs)"

text \<open>
  The content of a header or footer. A section has six of them, each either with a
  content of its own or linked to the previous section; \<open>hf.paragraphs\<close> and
  \<open>hf.tables\<close> of a linked one are those of the content it inherits. So the
  document keeps the contents in a list, and a section names, for each of the six, the
  content python-docx resolves it to.
\<close>

record header_footer =
  hf_paragraphs :: "Paragraph list"
  hf_tables :: "table list"

record hf_slot =
  is_linked_to_previous :: bool
  hf_part :: nat

record Section =
  header :: hf_slot
  first_page_header :: hf_slot
  even_page_header :: hf_slot
  footer :: hf_slot
  first_page_footer :: hf_slot
  even_page_footer :: hf_slot

text \<open>
  The body is the ordered list of its children. Paragraphs and tables of the body are
  objects that the passes hold references to while they insert siblings, so the body
  lists references, and the content lives in a store. \<open>BRef\<close> is the paragraph
  \<open>insert_page_break_after\<close> makes: one run with a page break, no text but perhaps a
  line break for it (blank once stripped), and no drawing. New elements take the next
  unused reference.
\<close>

datatype ref = PRef nat | TRef nat | BRef nat

record document =
  body :: "ref list"
  pstore :: "nat \<Rightarrow> Paragraph"
  tstore :: "nat \<Rightarrow> table"
  pnext :: nat
  tnext :: nat
  sections :: "Section list"
  hf_parts :: "header_footer list"

text \<open>
  \<open>paragraph.text\<close>: the text of the runs of the paragraph, which is also what
  the program gets when it joins \<open>run.text\<close> over \<open>paragraph.runs\<close> (the
  paragraphs here have no hyperlinks, whose text python-docx adds to the first only).
\<close>

definition para_text :: "Paragraph \<Rightarrow> ustring" where
  "para_text p = concat (map rtext (runs p))"

definition doc_paragraphs :: "document \<Rightarrow> nat list" where
  "doc_paragraphs d = concat (map (\<lambda>r. case r of PRef i \<Rightarrow> [i] | _ \<Rightarrow> []) (body d))"

definition doc_tables :: "document \<Rightarrow> nat list" where
  "doc_tables d = concat (map (\<lambda>r. case r of TRef i \<Rightarrow> [i] | _ \<Rightarrow> []) (body d))"

fun insert_after :: "ref \<Rightarrow> ref \<Rightarrow> ref list \<Rightarrow> ref list" where
  "insert_after x new [] = []"
| "insert_after x new (y # ys) =
     (if y = x then y # new # ys else y # insert_after x new ys)"

section \<open>Configuration and state\<close>

definition DEFAULT_FONT :: ustring where
  "DEFAULT_FONT = u ''Times New Roman''"

definition DEFAULT_FONT_SIZE :: nat where "DEFAULT_FONT_SIZE = 11"
definition HEADER_FOOTER_CHINESE_SIZE :: nat where "HEADER_FOOTER_CHINESE_SIZE = 10"
definition HEADER_FOOTER_ENGLISH_SIZE :: nat where "HEADER_FOOTER_ENGLISH_SIZE = 6"
definition TABLE_HEADER_ENGLISH_SIZE :: nat where "TABLE_HEADER_ENGLISH_SIZE = 8"
definition FLOWCHART_TEXTBOX_THRESHOLD :: nat where "FLOWCHART_TEXTBOX_THRESHOLD = 3"

record item =
  para_index :: nat
  para :: nat
  full_text :: ustring
  space_count :: nat

record group =
  group_id :: nat
  paragraphs :: "item list"
  merged_text :: "ustring option"

text \<open>
  \<open>pcb_terms_dict\<close> is kept as the list of its entries in the order of the
  dictionary, each with its key and its \<open>traditional\<close> field. Python compares
  the identifiers of groups and the references of tables as they are.
\<close>

record doc_state =
  continuous_abnormal_groups :: "group list"
  current_group :: "group option"
  translated_group_ids :: "nat set"
  flowchart_original_tables :: "nat list"
  pcb_terms_dict :: "(ustring \<times> ustring) list"
  fixed_translation_map :: "ustring \<rightharpoonup> ustring"

definition reset :: "doc_state \<Rightarrow> doc_state" where
  "reset st = st\<lparr>continuous_abnormal_groups := [], current_group := None,
                 translated_group_ids := {}, flowchart_original_tables := []\<rparr>"

section \<open>WordDocumentHelper\<close>

definition has_picture :: "run \<Rightarrow> bool" where
  "has_picture r \<longleftrightarrow> rdraw r \<noteq> None"

definition set_run_text :: "run \<Rightarrow> ustring \<Rightarrow> run" where
  "set_run_text r t = r\<lparr>rtext := t, rdraw := None\<rparr>"

definition add_run :: "Paragraph \<Rightarrow> ustring \<Rightarrow> Paragraph" where
  "add_run p t =
     p\<lparr>runs := runs p @
          [\<lparr>rtext = t, rdraw = None, r_ascii = None, r_hAnsi = None, r_cs = None,
            r_eastAsia = None, r_sz = None, r_szCs = None, r_szFarEast = None\<rparr>]\<rparr>"

definition clear_paragraph_text_keep_images :: "Paragraph \<Rightarrow> Paragraph" where
  "clear_paragraph_text_keep_images p =
     p\<lparr>runs := map (\<lambda>r. if \<not> has_picture r then set_run_text r [] else r) (runs p)\<rparr>"

definition clear_all_runs :: "Paragraph \<Rightarrow> Paragraph" where
  "clear_all_runs p = p\<lparr>runs := map (\<lambda>r. set_run_text r []) (runs p)\<rparr>"

text \<open>
  The paragraph \<open>add_english_below\<close> builds: alignment from the argument, else from
  the paragraph, else left; one run in the default font (\<open>font.name\<close> sets the
  \<open>ascii\<close> and \<open>hAnsi\<close> fonts, and the East Asian font is set beside), whose
  size is the argument, else the size of the paragraph's first run when that is set and
  not zero, else the default.
\<close>

definition english_paragraph ::
  "Paragraph \<Rightarrow> ustring \<Rightarrow> nat option \<Rightarrow> alignment option \<Rightarrow> Paragraph" where
  "english_paragraph p english_text font_size alignment =
     \<lparr>runs =
        [\<lparr>rtext = english_text, rdraw = None,
          r_ascii = Some DEFAULT_FONT, r_hAnsi = Some DEFAULT_FONT, r_cs = None,
          r_eastAsia = Some DEFAULT_FONT,
          r_sz =
            (case font_size of
               Some n \<Rightarrow> Some (2 * n)
             | None \<Rightarrow>
                 (case runs p of
                    r # _ \<Rightarrow>
                      (case r_sz r of
                         Some v \<Rightarrow> if v \<noteq> 0 then Some v else Some (2 * DEFAULT_FONT_SIZE)
                       | None \<Rightarrow> Some (2 * DEFAULT_FONT_SIZE))
                  | [] \<Rightarrow> Some (2 * DEFAULT_FONT_SIZE))),
          r_szCs = None, r_szFarEast = None\<rparr>],
      palign =
        (case alignment of
           Some a \<Rightarrow> Some a
         | None \<Rightarrow> (case palign p of Some a \<Rightarrow> Some a | None \<Rightarrow> Some LEFT)),
      pstyle = None\<rparr>"

text \<open>
  What the handling of one paragraph does is local to it: it may rewrite the paragraph,
  and it may add one paragraph right below (\<open>add_english_below\<close>). The paragraph
  functions compute both, and the caller writes them where the paragraph lives: the
  body, a cell, a header or footer.
\<close>

type_synonym outcome = "Paragraph \<times> Paragraph option"

definition add_english_below ::
  "Paragraph \<Rightarrow> ustring \<Rightarrow> nat option \<Rightarrow> alignment option \<Rightarrow> outcome" where
  "add_english_below p english_text font_size alignment =
     (p, Some (english_paragraph p english_text font_size alignment))"

text \<open>
  In the body the new paragraph goes right after its paragraph among the children;
  a paragraph with no parent gets nothing.
\<close>

fun place :: "document \<Rightarrow> nat \<Rightarrow> outcome \<Rightarrow> document" where
  "place d i (p, None) = d\<lparr>pstore := (pstore d)(i := p)\<rparr>"
| "place d i (p, Some e) =
     (if PRef i \<notin> set (body d) then d\<lparr>pstore := (pstore d)(i := p)\<rparr>
      else d\<lparr>body := insert_after (PRef i) (PRef (pnext d)) (body d),
             pstore := (pstore d)(i := p, pnext d := e),
             pnext := Suc (pnext d)\<rparr>)"

definition insert_page_break_after :: "document \<Rightarrow> ref \<Rightarrow> ref \<times> document" where
  "insert_page_break_after d e =
     (BRef (pnext d),
      d\<lparr>body := insert_after e (BRef (pnext d)) (body d), pnext := Suc (pnext d)\<rparr>)"

section \<open>TranslationEngine\<close>

text \<open>
  The translator is outside the program: a function that returns the translation or
  raises. \<open>_translate_with_llm\<close> catches whatever it raises.
\<close>

type_synonym backend = "ustring \<Rightarrow> string + ustring"

fun split_on :: "(uchar \<Rightarrow> bool) \<Rightarrow> ustring \<Rightarrow> ustring list" where
  "split_on sep [] = [[]]"
| "split_on sep (c # s) = (if sep c then [] # split_on sep s else grow c (split_on sep s))"

fun check_pcb_terms :: "(ustring \<times> ustring) list \<Rightarrow> ustring \<Rightarrow> ustring option" where
  "check_pcb_terms [] text = None"
| "check_pcb_terms ((english_key, traditional) # rest) text =
     (if traditional = text then Some english_key
      else if list_ex (\<lambda>item. strip item = text)
                (split_on (\<lambda>c. c = 65292 \<or> c = 44) traditional)
      then Some english_key
      else check_pcb_terms rest text)"

definition translate_with_llm :: "backend \<Rightarrow> ustring \<Rightarrow> ustring" where
  "translate_with_llm translator text =
     (case translator text of
        Inr translated \<Rightarrow> strip translated
      | Inl e \<Rightarrow> text)"

definition translate_text :: "backend \<Rightarrow> doc_state \<Rightarrow> ustring \<Rightarrow> ustring" where
  "translate_text translator st text =
     (if text = [] \<or> strip text = [] \<or> \<not> is_chinese text then text
      else
        (let text_stripped = strip text in
         case fixed_translation_map st text_stripped of
           Some fixed \<Rightarrow> fixed
         | None \<Rightarrow>
             (case check_pcb_terms (pcb_terms_dict st) text_stripped of
                Some translation \<Rightarrow>
                  if translation \<noteq> [] then translation
                  else translate_with_llm translator text
              | None \<Rightarrow> translate_with_llm translator text)))"

section \<open>ParagraphProcessor\<close>

definition has_long_spaces_in_runs :: "Paragraph \<Rightarrow> bool \<times> nat" where
  "has_long_spaces_in_runs p =
     (let raw_text = para_text p in
      if raw_text = [] then (False, 0)
      else
        (let leading_spaces = length raw_text - length (lstrip_chars [32, 9] raw_text) in
         if leading_spaces > 0
         then (True, sum_list (map (\<lambda>c. if c = 9 then 4 else 1) (take leading_spaces raw_text)))
         else (False, 0)))"

definition merge_group_text :: "item list \<Rightarrow> ustring" where
  "merge_group_text paragraphs_list =
     (if paragraphs_list = [] then []
      else
        (let lines = map (\<lambda>p. lstrip (full_text p)) paragraphs_list;
             is_step_group = list_ex (\<lambda>p. get_step_number (full_text p) \<noteq> []) paragraphs_list
         in if is_step_group
            then (case lines of
                    [] \<Rightarrow> []
                  | first # others \<Rightarrow> foldl (\<lambda>result line. result @ lstrip line) first others)
            else join [32] lines))"

text \<open>The block that ends the open group: merge its text, append it, open none.\<close>

definition close_current_group :: "doc_state \<Rightarrow> doc_state" where
  "close_current_group st =
     (case current_group st of
        None \<Rightarrow> st
      | Some g \<Rightarrow>
          st\<lparr>continuous_abnormal_groups :=
               continuous_abnormal_groups st
                 @ [g\<lparr>merged_text := Some (merge_group_text (paragraphs g))\<rparr>],
             current_group := None\<rparr>)"

definition new_group :: "doc_state \<Rightarrow> item \<Rightarrow> doc_state" where
  "new_group st it =
     st\<lparr>current_group :=
          Some \<lparr>group_id = length (continuous_abnormal_groups st) + 1,
                paragraphs = [it], merged_text = None\<rparr>\<rparr>"

definition record_long_space_paragraph ::
  "doc_state \<Rightarrow> Paragraph \<Rightarrow> nat \<Rightarrow> nat option \<Rightarrow> doc_state" where
  "record_long_space_paragraph st paragraph i para_idx =
     (let (has_abnormal, count) = has_long_spaces_in_runs paragraph;
          step_number = get_step_number (para_text paragraph)
      in if \<not> has_abnormal then close_current_group st
         else
           (case para_idx of
              None \<Rightarrow> st
            | Some k \<Rightarrow>
                (let it = \<lparr>para_index = k, para = i,
                           full_text = strip (para_text paragraph), space_count = count\<rparr>
                 in if step_number \<noteq> [] then new_group (close_current_group st) it
                    else
                      (case current_group st of
                         Some g \<Rightarrow> st\<lparr>current_group := Some (g\<lparr>paragraphs := paragraphs g @ [it]\<rparr>)\<rparr>
                       | None \<Rightarrow> new_group st it))))"

definition finalize_groups :: "doc_state \<Rightarrow> doc_state" where
  "finalize_groups st =
     (case current_group st of
        None \<Rightarrow> st
      | Some g \<Rightarrow>
          st\<lparr>continuous_abnormal_groups :=
               continuous_abnormal_groups st
                 @ [g\<lparr>merged_text := Some (merge_group_text (paragraphs g))\<rparr>]\<rparr>)"

section \<open>BilingualTranslator\<close>

text \<open>\<open>text.find(sub)\<close>: the first index where \<open>sub\<close> starts, if any.\<close>

fun find_sub :: "ustring \<Rightarrow> ustring \<Rightarrow> nat option" where
  "find_sub [] sub = (if sub = [] then Some 0 else None)"
| "find_sub (c # s) sub =
     (if take (length sub) (c # s) = sub then Some 0 else map_option Suc (find_sub s sub))"

text \<open>
  The separators skipped after a step number: dot, space, both colons, the
  ideographic space and tab.
\<close>

definition separators :: "uchar list" where
  "separators = [46, 32, 58, 65306, 12288, 9, 32]"

text \<open>
  \<open>find\<close> gives -1 when the number is not in the text; the number is not empty
  then, so the start \<open>-1 + len\<close> is not negative.
\<close>

definition extract_content_after_number :: "ustring \<Rightarrow> ustring \<Rightarrow> ustring" where
  "extract_content_after_number text step_number =
     (let content_start =
            (case find_sub text step_number of
               Some k \<Rightarrow> k + length step_number
             | None \<Rightarrow> length step_number - 1)
      in dropWhile (\<lambda>c. c \<in> set separators) (drop content_start text))"

definition indent_of :: "ustring \<Rightarrow> ustring" where
  "indent_of raw_text = replicate (length raw_text - length (lstrip raw_text)) 32"

definition translate_colon_no_content ::
  "(ustring \<Rightarrow> ustring) \<Rightarrow> Paragraph \<Rightarrow> ustring \<Rightarrow> ustring \<Rightarrow> outcome" where
  "translate_colon_no_content tr paragraph raw_text colon_part =
     (let translated = tr colon_part;
          has_images = list_ex has_picture (runs paragraph);
          original_colon = (if 65306 \<in> set raw_text then 65306 else 58);
          indent = indent_of raw_text;
          new_text = indent @ colon_part @ [40] @ translated @ [41] @ [original_colon]
      in if has_images
         then (add_run (clear_paragraph_text_keep_images paragraph) new_text, None)
         else (add_run (clear_all_runs paragraph) new_text, None))"

definition translate_colon_with_content ::
  "(ustring \<Rightarrow> ustring) \<Rightarrow> Paragraph \<Rightarrow> ustring \<Rightarrow> ustring \<Rightarrow> outcome" where
  "translate_colon_with_content tr paragraph raw_text stripped_text =
     (let step_number = get_step_number stripped_text;
          indent = indent_of raw_text;
          final_english =
            (if step_number \<noteq> []
             then indent @ tr (extract_content_after_number stripped_text step_number)
             else indent @ tr stripped_text)
      in add_english_below paragraph final_english None None)"

definition translate_no_colon ::
  "(ustring \<Rightarrow> ustring) \<Rightarrow> Paragraph \<Rightarrow> ustring \<Rightarrow> ustring \<Rightarrow> outcome" where
  "translate_no_colon tr paragraph raw_text stripped_text =
     (let step_number = get_step_number stripped_text;
          indent = indent_of raw_text;
          final_english =
            (if step_number \<noteq> []
             then indent @ tr (extract_content_after_number stripped_text step_number)
             else indent @ tr stripped_text)
      in add_english_below paragraph final_english None None)"

definition translate_regular_paragraph :: "(ustring \<Rightarrow> ustring) \<Rightarrow> Paragraph \<Rightarrow> outcome" where
  "translate_regular_paragraph tr paragraph =
     (let raw_text = para_text paragraph;
          stripped_text = strip raw_text;
          (has_colon, has_content, colon_part, content_part) = check_colon_format stripped_text
      in if has_colon \<and> \<not> has_content
         then translate_colon_no_content tr paragraph raw_text colon_part
         else if has_colon \<and> has_content
         then translate_colon_with_content tr paragraph raw_text stripped_text
         else translate_no_colon tr paragraph raw_text stripped_text)"

fun find_group :: "group list \<Rightarrow> nat set \<Rightarrow> nat option \<Rightarrow> (group \<times> bool) option" where
  "find_group [] done idx = None"
| "find_group (g # gs) done idx =
     (if group_id g \<in> done then find_group gs done idx
      else
        (case List.find (\<lambda>it. Some (para_index it) = idx) (paragraphs g) of
           Some it \<Rightarrow>
             (case paragraphs g of
                first # _ \<Rightarrow> Some (g, para_index it = para_index first)
              | [] \<Rightarrow> None)
         | None \<Rightarrow> find_group gs done idx))"

text \<open>
  The group is handled at its first paragraph, a paragraph of the body. The others
  are objects of their own, reached through the references the group keeps.
\<close>

definition clear_members :: "item list \<Rightarrow> document \<Rightarrow> document" where
  "clear_members items d =
     fold (\<lambda>it d. d\<lparr>pstore := (pstore d)
                      (para it := clear_paragraph_text_keep_images (pstore d (para it)))\<rparr>)
          items d"

definition translate_grouped_paragraphs ::
  "backend \<Rightarrow> doc_state \<Rightarrow> document \<Rightarrow> nat \<Rightarrow> group \<Rightarrow> doc_state \<times> document" where
  "translate_grouped_paragraphs translator st d i grp =
     (let paragraph = pstore d i;
          merged_chinese = merge_group_text (paragraphs grp);
          first_full_text = (case paragraphs grp of first # _ \<Rightarrow> full_text first | [] \<Rightarrow> []);
          step_number = get_step_number first_full_text;
          raw_text = para_text paragraph;
          indent = indent_of raw_text;
          has_images = list_ex has_picture (runs paragraph);
          rewritten =
            (if has_images
             then add_run (clear_paragraph_text_keep_images paragraph) merged_chinese
             else add_run (clear_all_runs paragraph) (indent @ merged_chinese));
          pure_content =
            (if step_number \<noteq> []
             then extract_content_after_number merged_chinese step_number
             else merged_chinese);
          translated_full = translate_text translator st pure_content;
          final_english = indent @ strip translated_full;
          d1 = place d i (add_english_below rewritten final_english None None);
          d2 = clear_members (tl (paragraphs grp)) d1
      in (st\<lparr>translated_group_ids := insert (group_id grp) (translated_group_ids st)\<rparr>, d2))"

definition translate_paragraph ::
  "backend \<Rightarrow> doc_state \<Rightarrow> document \<Rightarrow> nat \<Rightarrow> nat option \<Rightarrow> doc_state \<times> document" where
  "translate_paragraph translator st d i para_idx =
     (let paragraph = pstore d i in
      if strip (para_text paragraph) = [] \<or> \<not> is_chinese (para_text paragraph) then (st, d)
      else
        (case find_group (continuous_abnormal_groups st) (translated_group_ids st) para_idx of
           Some (grp, is_first_para_in_group) \<Rightarrow>
             if \<not> is_first_para_in_group then (st, d)
             else translate_grouped_paragraphs translator st d i grp
         | None \<Rightarrow>
             (st, place d i (translate_regular_paragraph (translate_text translator st) paragraph))))"

text \<open>
  \<open>translate_paragraph\<close> as the table pass calls it, on a paragraph of a cell and
  with no index: no group has a member at the index \<open>None\<close>, so the paragraph
  takes the regular path.
\<close>

definition translate_paragraph_no_index :: "backend \<Rightarrow> doc_state \<Rightarrow> Paragraph \<Rightarrow> outcome" where
  "translate_paragraph_no_index translator st paragraph =
     (if strip (para_text paragraph) = [] \<or> \<not> is_chinese (para_text paragraph)
      then (paragraph, None)
      else translate_regular_paragraph (translate_text translator st) paragraph)"

subsection \<open>Tables\<close>

definition cell_paragraphs :: "cell \<Rightarrow> Paragraph list" where
  "cell_paragraphs c = concat (map (\<lambda>ch. case ch of CPara p \<Rightarrow> [p] | CNested _ \<Rightarrow> []) c)"

definition qualifies :: "Paragraph \<Rightarrow> bool" where
  "qualifies p \<longleftrightarrow> strip (para_text p) \<noteq> [] \<and> is_chinese (para_text p)"

fun child_qualifies :: "cell_child \<Rightarrow> bool" where
  "child_qualifies (CPara p) = qualifies p"
| "child_qualifies (CNested bs) = False"

fun emit :: "outcome \<Rightarrow> cell_child list" where
  "emit (p, None) = [CPara p]"
| "emit (p, Some e) = [CPara p, CPara e]"

text \<open>
  The new paragraph goes after the last of the collected paragraphs, which is the last
  child of the cell that qualifies.
\<close>

fun insert_after_last :: "cell_child \<Rightarrow> cell \<Rightarrow> cell" where
  "insert_after_last new [] = []"
| "insert_after_last new (x # xs) =
     (if child_qualifies x \<and> \<not> list_ex child_qualifies xs then x # new # xs
      else x # insert_after_last new xs)"

definition numbered_item :: "Paragraph \<Rightarrow> ustring \<times> ustring" where
  "numbered_item p =
     (let stripped = strip (para_text p); step_num = get_step_number stripped
      in if step_num \<noteq> [] then (extract_content_after_number stripped step_num, step_num)
         else (stripped, []))"

definition label_line :: "ustring \<times> ustring \<Rightarrow> ustring" where
  "label_line = (\<lambda>(num, part). if num \<noteq> [] then num @ [46] @ part else part)"

text \<open>
  The text \<open>_translate_numbered_table_cell\<close> writes below the last paragraph. The
  loop over the numbers that stops labelling where the parts end is the \<open>zip\<close>.
\<close>

definition numbered_cell_english :: "(ustring \<Rightarrow> ustring) \<Rightarrow> Paragraph list \<Rightarrow> ustring" where
  "numbered_cell_english tr ps =
     (let all_chinese = map (fst \<circ> numbered_item) ps;
          all_numbers = map (snd \<circ> numbered_item) ps;
          merged_chinese = join [32] all_chinese;
          translated_full = tr merged_chinese;
          translated_parts =
            filter (\<lambda>p. p \<noteq> []) (map strip (split_on (\<lambda>c. c = 46) translated_full));
          english_lines =
            map label_line (zip all_numbers translated_parts)
              @ (if length translated_parts > length all_numbers
                 then drop (length all_numbers) translated_parts else [])
      in join [10] english_lines)"

definition translate_numbered_table_cell ::
  "(ustring \<Rightarrow> ustring) \<Rightarrow> Paragraph list \<Rightarrow> cell \<Rightarrow> cell" where
  "translate_numbered_table_cell tr ps c =
     (let combined_english = numbered_cell_english tr ps;
          last_para = last ps
      in insert_after_last (CPara (english_paragraph last_para combined_english None None)) c)"

definition translate_cell :: "backend \<Rightarrow> doc_state \<Rightarrow> cell \<Rightarrow> cell" where
  "translate_cell translator st c =
     (let ps = filter qualifies (cell_paragraphs c) in
      if ps = [] then c
      else
        (let has_numbers = list_ex (\<lambda>p. get_step_number (para_text p) \<noteq> []) ps in
         if has_numbers \<and> length ps > 1
         then translate_numbered_table_cell (translate_text translator st) ps c
         else concat (map (\<lambda>ch. case ch of
                              CPara p \<Rightarrow>
                                if qualifies p
                                then emit (translate_paragraph_no_index translator st p)
                                else [ch]
                            | CNested bs \<Rightarrow> [ch]) c)))"

text \<open>
  The table pass visits the cells as \<open>row.cells\<close> gives them, a merged cell once
  for every grid column it spans.
\<close>

definition translate_table :: "backend \<Rightarrow> doc_state \<Rightarrow> table \<Rightarrow> table" where
  "translate_table translator st t =
     t\<lparr>tcells := fold (visit (translate_cell translator st)) (visited t) (tcells t)\<rparr>"

subsection \<open>Headers and footers\<close>

datatype target = All | Chinese | English

text \<open>
  \<open>run.font.size = Pt(n)\<close> writes \<open>w:sz\<close>, and the loop after it writes
  \<open>w:sz\<close> and \<open>w:szCs\<close>, all with the half-points \<open>2 * n\<close>.
\<close>

definition set_paragraph_font_size :: "Paragraph \<Rightarrow> nat \<Rightarrow> target \<Rightarrow> Paragraph" where
  "set_paragraph_font_size p font_size_pt tgt =
     (if runs p = [] then p
      else
        (let half_points = font_size_pt * 2;
             p1 = p\<lparr>pstyle := None\<rparr>;
             paragraph_has_chinese = is_chinese (para_text p1);
             should_adjust =
               (tgt = All \<or> (tgt = Chinese \<and> paragraph_has_chinese)
                \<or> (tgt = English \<and> \<not> paragraph_has_chinese))
         in if \<not> should_adjust then p1
            else p1\<lparr>runs := map (\<lambda>r. if strip (rtext r) = [] then r
                                       else r\<lparr>r_sz := Some half_points,
                                              r_szCs := Some half_points\<rparr>) (runs p1)\<rparr>))"

definition hf_paragraph :: "(ustring \<Rightarrow> ustring) \<Rightarrow> Paragraph \<Rightarrow> Paragraph list" where
  "hf_paragraph tr p =
     (if strip (para_text p) \<noteq> [] \<and> is_chinese (para_text p)
      then
        (let p1 = set_paragraph_font_size p HEADER_FOOTER_CHINESE_SIZE Chinese;
             translated = tr (para_text p1)
         in if translated \<noteq> []
            then [p1, english_paragraph p1 translated (Some HEADER_FOOTER_ENGLISH_SIZE) (Some CENTER)]
            else [p1])
      else [p])"

text \<open>
  In a table of a header or footer a text is translated once: the texts done so far
  are carried through the cells of the table.
\<close>

fun hf_cell :: "(ustring \<Rightarrow> ustring) \<Rightarrow> ustring list \<Rightarrow> cell \<Rightarrow> cell \<times> ustring list" where
  "hf_cell tr processed_texts [] = ([], processed_texts)"
| "hf_cell tr processed_texts (CNested bs # chs) =
     (let (rest, seen) = hf_cell tr processed_texts chs in (CNested bs # rest, seen))"
| "hf_cell tr processed_texts (CPara p # chs) =
     (let full_text = strip (para_text p) in
      if full_text \<noteq> [] \<and> is_chinese full_text
      then
        (let p1 = set_paragraph_font_size p HEADER_FOOTER_CHINESE_SIZE Chinese in
         if full_text \<in> set processed_texts
         then (let (rest, seen) = hf_cell tr processed_texts chs in (CPara p1 # rest, seen))
         else
           (let translated = tr (para_text p1) in
            if translated \<noteq> []
            then (let (rest, seen) = hf_cell tr (full_text # processed_texts) chs
                  in (CPara p1
                        # CPara (english_paragraph p1 translated
                                  (Some TABLE_HEADER_ENGLISH_SIZE) (Some CENTER))
                        # rest, seen))
            else (let (rest, seen) = hf_cell tr processed_texts chs in (CPara p1 # rest, seen))))
      else (let (rest, seen) = hf_cell tr processed_texts chs in (CPara p # rest, seen)))"

text \<open>The cells of the table come as \<open>row.cells\<close> gives them.\<close>

definition hf_table :: "(ustring \<Rightarrow> ustring) \<Rightarrow> table \<Rightarrow> table" where
  "hf_table tr t =
     t\<lparr>tcells :=
         fst (fold (\<lambda>k (cs, processed_texts).
                      if k < length cs
                      then (let (c, seen) = hf_cell tr processed_texts (cs ! k)
                            in (cs[k := c], seen))
                      else (cs, processed_texts))
                (visited t) (tcells t, []))\<rparr>"

definition translate_hf_part :: "(ustring \<Rightarrow> ustring) \<Rightarrow> header_footer \<Rightarrow> header_footer" where
  "translate_hf_part tr hf =
     hf\<lparr>hf_paragraphs := concat (map (hf_paragraph tr) (hf_paragraphs hf)),
        hf_tables := map (hf_table tr) (hf_tables hf)\<rparr>"

text \<open>The headers and then the footers of a section, as the translation walks them.\<close>

definition headers_and_footers :: "Section \<Rightarrow> hf_slot list" where
  "headers_and_footers s =
     [header s, first_page_header s, even_page_header s,
      footer s, first_page_footer s, even_page_footer s]"

definition translate_header_footer :: "backend \<Rightarrow> doc_state \<Rightarrow> document \<Rightarrow> document" where
  "translate_header_footer translator st d =
     d\<lparr>hf_parts :=
         fold (\<lambda>hf parts.
                 if is_linked_to_previous hf then parts
                 else visit (translate_hf_part (translate_text translator st)) (hf_part hf) parts)
           (concat (map headers_and_footers (sections d))) (hf_parts d)\<rparr>"

section \<open>FlowchartHandler\<close>

text \<open>
  \<open>findall('.//w:txbxContent')\<close>: the textboxes below an element at any depth, in
  document order. Below a cell these are the textboxes in the drawings of its own
  paragraphs and the textboxes of its nested tables.
\<close>

definition run_boxes :: "run \<Rightarrow> textbox list" where
  "run_boxes r = (case rdraw r of None \<Rightarrow> [] | Some bs \<Rightarrow> bs)"

definition para_boxes :: "Paragraph \<Rightarrow> textbox list" where
  "para_boxes p = concat (map run_boxes (runs p))"

fun child_boxes :: "cell_child \<Rightarrow> textbox list" where
  "child_boxes (CPara p) = para_boxes p"
| "child_boxes (CNested bs) = bs"

definition cell_boxes :: "cell \<Rightarrow> textbox list" where
  "cell_boxes c = concat (map child_boxes c)"

text \<open>The count adds the textboxes of every cell \<open>row.cells\<close> gives.\<close>

definition count_textboxes_in_table :: "table \<Rightarrow> nat" where
  "count_textboxes_in_table t =
     sum_list (map (\<lambda>k. if k < length (tcells t) then length (cell_boxes (tcells t ! k)) else 0)
                 (visited t))"

definition is_flowchart_table :: "table \<Rightarrow> bool" where
  "is_flowchart_table t \<longleftrightarrow> count_textboxes_in_table t \<ge> FLOWCHART_TEXTBOX_THRESHOLD"

definition adjust_textbox_formatting :: "textbox \<Rightarrow> textbox" where
  "adjust_textbox_formatting tb =
     tb\<lparr>tb_runs := map (\<lambda>r. r\<lparr>tr_sz := Some 11\<rparr>) (tb_runs tb),
        tb_paras := map (\<lambda>f. f\<lparr>spacing_line := Some 130, spacing_rule := Some (u ''exact''),
                               jc := Some (u ''center'')\<rparr>) (tb_paras tb)\<rparr>"

text \<open>
  The loop over the text nodes of one textbox: a node with text is translated (an
  empty translation leaves it), and a node whose text was Chinese has the whole textbox
  formatted. The result is the new texts and whether the formatting ran.
\<close>

fun walk_texts :: "(ustring \<Rightarrow> ustring) \<Rightarrow> ustring list \<Rightarrow> ustring list \<times> bool" where
  "walk_texts tr [] = ([], False)"
| "walk_texts tr (original_text # ts) =
     (let (rest, formatted) = walk_texts tr ts in
      if original_text \<noteq> [] \<and> strip original_text \<noteq> []
      then
        (let translated_text = tr original_text in
         ((if translated_text \<noteq> [] then translated_text else original_text) # rest,
          is_chinese original_text \<or> formatted))
      else (original_text # rest, formatted))"

fun walk_runs :: "(ustring \<Rightarrow> ustring) \<Rightarrow> tb_run list \<Rightarrow> tb_run list \<times> bool" where
  "walk_runs tr [] = ([], False)"
| "walk_runs tr (r # rs) =
     (let (texts, formatted) = walk_texts tr (tr_texts r);
          (rest, formatted_later) = walk_runs tr rs
      in (r\<lparr>tr_texts := texts\<rparr> # rest, formatted \<or> formatted_later))"

definition translate_textbox :: "(ustring \<Rightarrow> ustring) \<Rightarrow> textbox \<Rightarrow> textbox" where
  "translate_textbox tr tb =
     (let (rs, formatted) = walk_runs tr (tb_runs tb);
          tb1 = tb\<lparr>tb_runs := rs\<rparr>
      in if formatted then adjust_textbox_formatting tb1 else tb1)"

text \<open>The change \<open>f\<close> made to the first textbox below a cell, and to all of them.\<close>

fun first_box :: "(textbox \<Rightarrow> textbox) \<Rightarrow> textbox list \<Rightarrow> textbox list" where
  "first_box f [] = []"
| "first_box f (b # bs) = f b # bs"

fun first_box_runs :: "(textbox \<Rightarrow> textbox) \<Rightarrow> run list \<Rightarrow> run list" where
  "first_box_runs f [] = []"
| "first_box_runs f (r # rs) =
     (if run_boxes r = [] then r # first_box_runs f rs
      else r\<lparr>rdraw := Some (first_box f (run_boxes r))\<rparr> # rs)"

fun first_box_cell :: "(textbox \<Rightarrow> textbox) \<Rightarrow> cell \<Rightarrow> cell" where
  "first_box_cell f [] = []"
| "first_box_cell f (ch # chs) =
     (if child_boxes ch = [] then ch # first_box_cell f chs
      else (case ch of
              CPara p \<Rightarrow> CPara (p\<lparr>runs := first_box_runs f (runs p)\<rparr>)
            | CNested bs \<Rightarrow> CNested (first_box f bs)) # chs)"

definition map_para_boxes :: "(textbox \<Rightarrow> textbox) \<Rightarrow> Paragraph \<Rightarrow> Paragraph" where
  "map_para_boxes f p = p\<lparr>runs := map (\<lambda>r. r\<lparr>rdraw := map_option (map f) (rdraw r)\<rparr>) (runs p)\<rparr>"

text \<open>
  The paragraphs of a cell of the clone: every run of a paragraph with Chinese text is
  emptied and the translation is added as a new run.
\<close>

definition flowchart_cell_paragraphs :: "(ustring \<Rightarrow> ustring) \<Rightarrow> cell \<Rightarrow> cell" where
  "flowchart_cell_paragraphs tr c =
     map (\<lambda>ch. case ch of
                 CPara p \<Rightarrow>
                   if qualifies p
                   then CPara (add_run (clear_all_runs p) (tr (strip (para_text p))))
                   else ch
               | CNested bs \<Rightarrow> ch) c"

text \<open>
  The loops over rows and cells of the clone. The \<open>return\<close> stands inside the loop
  over the textboxes of a cell, so the function returns after the first textbox of the
  first cell that has one.
\<close>

fun flowchart_cells :: "(ustring \<Rightarrow> ustring) \<Rightarrow> nat list \<Rightarrow> cell list \<Rightarrow> cell list" where
  "flowchart_cells tr [] cs = cs"
| "flowchart_cells tr (k # ks) cs =
     (if k < length cs
      then (let c1 = flowchart_cell_paragraphs tr (cs ! k) in
            if cell_boxes c1 = [] then flowchart_cells tr ks (cs[k := c1])
            else cs[k := first_box_cell (translate_textbox tr) c1])
      else flowchart_cells tr ks cs)"

definition clone_and_translate_flowchart ::
  "backend \<Rightarrow> doc_state \<Rightarrow> document \<Rightarrow> nat \<Rightarrow> doc_state \<times> document" where
  "clone_and_translate_flowchart translator st d t =
     (let st1 = st\<lparr>flowchart_original_tables := flowchart_original_tables st @ [t]\<rparr>;
          (page_break_para, d1) = insert_page_break_after d (TRef t);
          cloned = tnext d1;
          d2 = d1\<lparr>body := insert_after page_break_para (TRef cloned) (body d1),
                  tstore := (tstore d1)(cloned := tstore d1 t),
                  tnext := Suc cloned\<rparr>;
          translated_table = tstore d2 cloned;
          d3 = d2\<lparr>tstore := (tstore d2)
                    (cloned := translated_table
                       \<lparr>tcells := flowchart_cells (translate_text translator st1)
                                    (visited translated_table) (tcells translated_table)\<rparr>)\<rparr>
      in (st1, d3))"

text \<open>
  The generic pass over every textbox of the body. The nearest table above a textbox
  in a paragraph of the body is none; above a textbox in a paragraph of a cell it is
  the table of the body; above a textbox of a nested table it is the nested table,
  which is never in the list of originals (the list holds tables of the body).
\<close>

definition textboxes_in_table ::
  "(textbox \<Rightarrow> textbox) \<Rightarrow> bool \<Rightarrow> table \<Rightarrow> table" where
  "textboxes_in_table f original t =
     t\<lparr>tcells :=
         map (map (\<lambda>ch. case ch of
                          CPara p \<Rightarrow> if original then ch else CPara (map_para_boxes f p)
                        | CNested bs \<Rightarrow> CNested (map f bs))) (tcells t)\<rparr>"

definition translate_textboxes_in_doc :: "backend \<Rightarrow> doc_state \<Rightarrow> document \<Rightarrow> document" where
  "translate_textboxes_in_doc translator st d =
     fold (\<lambda>r d. case r of
                   PRef i \<Rightarrow>
                     d\<lparr>pstore := (pstore d)
                         (i := map_para_boxes (translate_textbox (translate_text translator st))
                                 (pstore d i))\<rparr>
                 | TRef t \<Rightarrow>
                     d\<lparr>tstore := (tstore d)
                         (t := textboxes_in_table (translate_textbox (translate_text translator st))
                                 (t \<in> set (flowchart_original_tables st)) (tstore d t))\<rparr>
                 | BRef b \<Rightarrow> d)
          (body d) d"

section \<open>DocumentFormatter\<close>

text \<open>
  \<open>shrink_table_english_font\<close> multiplies a size by the ratio 0.82, a floating-point
  product, and truncates it. The function from a size to the truncated product is a
  parameter here, \<open>scaled\<close>. A run with no size gets the product for 22, and no size
  goes below 20.
\<close>

definition shrink_size :: "(nat \<Rightarrow> nat) \<Rightarrow> nat option \<Rightarrow> nat option" where
  "shrink_size scaled current_val =
     Some (max 20 (case current_val of Some v \<Rightarrow> scaled v | None \<Rightarrow> scaled 22))"

definition shrink_run :: "(nat \<Rightarrow> nat) \<Rightarrow> run \<Rightarrow> run" where
  "shrink_run scaled r =
     (if strip (rtext r) = [] then r
      else r\<lparr>r_sz := shrink_size scaled (r_sz r), r_szCs := shrink_size scaled (r_szCs r),
             r_szFarEast := shrink_size scaled (r_szFarEast r)\<rparr>)"

definition shrink_paragraph :: "(nat \<Rightarrow> nat) \<Rightarrow> Paragraph \<Rightarrow> Paragraph" where
  "shrink_paragraph scaled p =
     (let text = strip (para_text p) in
      if text = [] \<or> is_chinese text then p
      else p\<lparr>runs := map (shrink_run scaled) (runs p)\<rparr>)"

definition shrink_cell :: "(nat \<Rightarrow> nat) \<Rightarrow> cell \<Rightarrow> cell" where
  "shrink_cell scaled c =
     map (\<lambda>ch. case ch of CPara p \<Rightarrow> CPara (shrink_paragraph scaled p) | CNested bs \<Rightarrow> ch) c"

definition shrink_table_english_font :: "(nat \<Rightarrow> nat) \<Rightarrow> table \<Rightarrow> table" where
  "shrink_table_english_font scaled t =
     t\<lparr>tcells := fold (visit (shrink_cell scaled)) (visited t) (tcells t)\<rparr>"

text \<open>The six headers and footers of a section, in the order of the formatting passes.\<close>

definition all_headers_footers :: "Section \<Rightarrow> hf_slot list" where
  "all_headers_footers s =
     [header s, footer s, first_page_header s, first_page_footer s,
      even_page_header s, even_page_footer s]"

text \<open>Step 6 of \<open>translate_document\<close>: the tables of the body, then those of every
  header and footer, linked or not.\<close>

definition shrink_tables :: "(nat \<Rightarrow> nat) \<Rightarrow> document \<Rightarrow> document" where
  "shrink_tables scaled d =
     (let d1 = fold (\<lambda>t d. d\<lparr>tstore := (tstore d)
                                 (t := shrink_table_english_font scaled (tstore d t))\<rparr>)
                 (doc_tables d) d
      in d1\<lparr>hf_parts :=
              fold (\<lambda>hf parts.
                      visit (\<lambda>part. part\<lparr>hf_tables :=
                                map (shrink_table_english_font scaled) (hf_tables part)\<rparr>)
                        (hf_part hf) parts)
                (concat (map all_headers_footers (sections d1))) (hf_parts d1)\<rparr>)"

definition set_font :: "run \<Rightarrow> run" where
  "set_font r =
     (let text = strip (rtext r) in
      if text = [] \<or> is_chinese text then r
      else r\<lparr>r_ascii := Some DEFAULT_FONT, r_hAnsi := Some DEFAULT_FONT,
             r_cs := Some DEFAULT_FONT\<rparr>)"

definition font_paragraph :: "Paragraph \<Rightarrow> Paragraph" where
  "font_paragraph p = p\<lparr>runs := map set_font (runs p)\<rparr>"

definition font_cell :: "cell \<Rightarrow> cell" where
  "font_cell c =
     map (\<lambda>ch. case ch of CPara p \<Rightarrow> CPara (font_paragraph p) | CNested bs \<Rightarrow> ch) c"

definition font_table :: "table \<Rightarrow> table" where
  "font_table t = t\<lparr>tcells := fold (visit font_cell) (visited t) (tcells t)\<rparr>"

definition font_part :: "header_footer \<Rightarrow> header_footer" where
  "font_part part =
     part\<lparr>hf_paragraphs := map font_paragraph (hf_paragraphs part),
          hf_tables := map font_table (hf_tables part)\<rparr>"

text \<open>A run of a textbox gets the fonts when none of its text nodes has Chinese.\<close>

definition font_textbox :: "textbox \<Rightarrow> textbox" where
  "font_textbox tb =
     tb\<lparr>tb_runs :=
          map (\<lambda>r. if \<not> list_ex is_chinese (tr_texts r)
                    then r\<lparr>tr_ascii := Some DEFAULT_FONT, tr_hAnsi := Some DEFAULT_FONT,
                           tr_cs := Some DEFAULT_FONT\<rparr>
                    else r) (tb_runs tb)\<rparr>"

text \<open>
  \<open>force_times_new_roman\<close>: the paragraphs of the body (the run of a page-break
  paragraph has no text to set a font for), the tables of the body, the headers and
  footers, and every textbox of the body.
\<close>

definition force_times_new_roman :: "document \<Rightarrow> document" where
  "force_times_new_roman d =
     (let d1 = fold (\<lambda>i d. d\<lparr>pstore := (pstore d)(i := font_paragraph (pstore d i))\<rparr>)
                 (doc_paragraphs d) d;
          d2 = fold (\<lambda>t d. d\<lparr>tstore := (tstore d)(t := font_table (tstore d t))\<rparr>)
                 (doc_tables d1) d1;
          d3 = d2\<lparr>hf_parts :=
                    fold (\<lambda>hf parts. visit font_part (hf_part hf) parts)
                      (concat (map all_headers_footers (sections d2))) (hf_parts d2)\<rparr>
      in fold (\<lambda>r d. case r of
                       PRef i \<Rightarrow>
                         d\<lparr>pstore := (pstore d)(i := map_para_boxes font_textbox (pstore d i))\<rparr>
                     | TRef t \<Rightarrow>
                         d\<lparr>tstore := (tstore d)
                             (t := textboxes_in_table font_textbox False (tstore d t))\<rparr>
                     | BRef b \<Rightarrow> d)
           (body d3) d3)"

text \<open>
  \<open>remove_empty_paragraphs\<close>: a paragraph of the body whose text is blank and which
  has no picture is removed; a page-break paragraph is such a paragraph.
\<close>

definition remove_empty_paragraphs :: "document \<Rightarrow> document" where
  "remove_empty_paragraphs d =
     d\<lparr>body :=
         filter (\<lambda>r. case r of
                       PRef i \<Rightarrow>
                         \<not> (strip (para_text (pstore d i)) = []
                            \<and> \<not> list_ex has_picture (runs (pstore d i)))
                     | TRef t \<Rightarrow> True
                     | BRef b \<Rightarrow> False)
           (body d)\<rparr>"

section \<open>DocumentTranslator\<close>

text \<open>
  The passes of \<open>translate_document\<close>: grouping, paragraphs, tables, headers and
  footers, textboxes, then the sizes in tables, the fonts, and the removal of empty
  paragraphs. Each pass walks the list it read when it started. The dictionaries are
  those of the state given.
\<close>

definition group_pass :: "document \<Rightarrow> doc_state \<Rightarrow> doc_state" where
  "group_pass d st =
     finalize_groups
       (fold (\<lambda>(k, i) st.
                if strip (para_text (pstore d i)) \<noteq> [] \<and> is_chinese (para_text (pstore d i))
                then record_long_space_paragraph st (pstore d i) i (Some k)
                else st)
          (enumerate 0 (doc_paragraphs d)) st)"

definition paragraph_pass :: "backend \<Rightarrow> doc_state \<times> document \<Rightarrow> doc_state \<times> document" where
  "paragraph_pass translator sd =
     fold (\<lambda>(k, i) (st, d).
             if strip (para_text (pstore d i)) \<noteq> []
             then translate_paragraph translator st d i (Some k)
             else (st, d))
       (enumerate 0 (doc_paragraphs (snd sd))) sd"

definition table_pass :: "backend \<Rightarrow> doc_state \<times> document \<Rightarrow> doc_state \<times> document" where
  "table_pass translator sd =
     fold (\<lambda>t (st, d).
             if is_flowchart_table (tstore d t)
             then clone_and_translate_flowchart translator st d t
             else (st, d\<lparr>tstore := (tstore d)(t := translate_table translator st (tstore d t))\<rparr>))
       (doc_tables (snd sd)) sd"

text \<open>Steps 1 to 5, the passes that translate.\<close>

definition translation_steps :: "backend \<Rightarrow> doc_state \<Rightarrow> document \<Rightarrow> doc_state \<times> document" where
  "translation_steps translator st0 d =
     (let st1 = group_pass d (reset st0);
          (st2, d2) = paragraph_pass translator (st1, d);
          (st3, d3) = table_pass translator (st2, d2);
          d4 = translate_header_footer translator st3 d3
      in (st3, translate_textboxes_in_doc translator st3 d4))"

text \<open>Steps 6 to 8 follow: sizes in tables, fonts, empty paragraphs.\<close>

definition translate_document ::
  "(nat \<Rightarrow> nat) \<Rightarrow> backend \<Rightarrow> doc_state \<Rightarrow> document \<Rightarrow> doc_state \<times> document" where
  "translate_document scaled translator st0 d =
     (let (st, d5) = translation_steps translator st0 d;
          d6 = shrink_tables scaled d5;
          d7 = force_times_new_roman d6
      in (st, remove_empty_paragraphs d7))"

section \<open>What the grouping pass maintains\<close>

text \<open>
  The text an item keeps is the stripped text of its paragraph; a group has at least
  one item; a group in the list has its merged text.
\<close>

definition item_of :: "document \<Rightarrow> item \<Rightarrow> bool" where
  "item_of d it \<longleftrightarrow> full_text it = strip (para_text (pstore d (para it)))"

definition open_group_ok :: "document \<Rightarrow> group \<Rightarrow> bool" where
  "open_group_ok d g \<longleftrightarrow> paragraphs g \<noteq> [] \<and> list_all (item_of d) (paragraphs g)"

definition closed_group_ok :: "document \<Rightarrow> group \<Rightarrow> bool" where
  "closed_group_ok d g \<longleftrightarrow>
     open_group_ok d g \<and> merged_text g = Some (merge_group_text (paragraphs g))"

definition grouping_inv :: "document \<Rightarrow> doc_state \<Rightarrow> bool" where
  "grouping_inv d st \<longleftrightarrow>
     list_all (closed_group_ok d) (continuous_abnormal_groups st) \<and>
     (case current_group st of None \<Rightarrow> True | Some g \<Rightarrow> open_group_ok d g)"

section \<open>Documents with no Chinese character\<close>

text \<open>
  No text of the document has a Chinese character: not the text of a paragraph of the
  body, of a cell, of a header or footer, and not a text node of a textbox.
\<close>

definition clean_box :: "textbox \<Rightarrow> bool" where
  "clean_box tb \<longleftrightarrow> list_all (\<lambda>t. \<not> is_chinese t) (tb_texts tb)"

definition clean_paragraph :: "Paragraph \<Rightarrow> bool" where
  "clean_paragraph p \<longleftrightarrow> \<not> is_chinese (para_text p) \<and> list_all clean_box (para_boxes p)"

fun clean_child :: "cell_child \<Rightarrow> bool" where
  "clean_child (CPara p) = clean_paragraph p"
| "clean_child (CNested bs) = list_all clean_box bs"

definition clean_table :: "table \<Rightarrow> bool" where
  "clean_table t \<longleftrightarrow> list_all (list_all clean_child) (tcells t)"

definition clean_header_footer :: "header_footer \<Rightarrow> bool" where
  "clean_header_footer hf \<longleftrightarrow>
     list_all clean_paragraph (hf_paragraphs hf) \<and> list_all clean_table (hf_tables hf)"

definition no_chinese :: "document \<Rightarrow> bool" where
  "no_chinese d \<longleftrightarrow>
     list_all (\<lambda>i. clean_paragraph (pstore d i)) (doc_paragraphs d) \<and>
     list_all (\<lambda>t. clean_table (tstore d t)) (doc_tables d) \<and>
     list_all clean_header_footer (hf_parts d)"

section \<open>Documents up to fonts and sizes\<close>

text \<open>
  What the formatting passes write is left out: the fonts and sizes of runs, and the
  fonts of the runs of textboxes. Two documents that agree after this differ in nothing
  else.
\<close>

definition fontless_textbox :: "textbox \<Rightarrow> textbox" where
  "fontless_textbox tb =
     tb\<lparr>tb_runs := map (\<lambda>r. r\<lparr>tr_ascii := None, tr_hAnsi := None, tr_cs := None\<rparr>) (tb_runs tb)\<rparr>"

definition fontless_run :: "run \<Rightarrow> run" where
  "fontless_run r =
     r\<lparr>rdraw := map_option (map fontless_textbox) (rdraw r),
       r_ascii := None, r_hAnsi := None, r_cs := None,
       r_sz := None, r_szCs := None, r_szFarEast := None\<rparr>"

definition fontless_paragraph :: "Paragraph \<Rightarrow> Paragraph" where
  "fontless_paragraph p = p\<lparr>runs := map fontless_run (runs p)\<rparr>"

fun fontless_child :: "cell_child \<Rightarrow> cell_child" where
  "fontless_child (CPara p) = CPara (fontless_paragraph p)"
| "fontless_child (CNested bs) = CNested (map fontless_textbox bs)"

definition fontless_table :: "table \<Rightarrow> table" where
  "fontless_table t = t\<lparr>tcells := map (map fontless_child) (tcells t)\<rparr>"

definition fontless_part :: "header_footer \<Rightarrow> header_footer" where
  "fontless_part part =
     part\<lparr>hf_paragraphs := map fontless_paragraph (hf_paragraphs part),
          hf_tables := map fontless_table (hf_tables part)\<rparr>"

definition fontless_doc :: "document \<Rightarrow> document" where
  "fontless_doc d =
     d\<lparr>pstore := (\<lambda>i. fontless_paragraph (pstore d i)),
       tstore := (\<lambda>t. fontless_table (tstore d t)),
       hf_parts := map fontless_part (hf_parts d)\<rparr>"

section \<open>Example documents\<close>

definition plain_run :: "ustring \<Rightarrow> run" where
  "plain_run t =
     \<lparr>rtext = t, rdraw = None, r_ascii = None, r_hAnsi = None, r_cs = None, r_eastAsia = None,
      r_sz = None, r_szCs = None, r_szFarEast = None\<rparr>"

text \<open>A run with a drawing that holds the given textboxes, and with the given text.\<close>

definition drawing_run :: "ustring \<Rightarrow> textbox list \<Rightarrow> run" where
  "drawing_run t bs = (plain_run t)\<lparr>rdraw := Some bs\<rparr>"

definition plain_paragraph :: "ustring \<Rightarrow> Paragraph" where
  "plain_paragraph t = \<lparr>runs = [plain_run t], palign = None, pstyle = None\<rparr>"

definition empty_state :: doc_state where
  "empty_state =
     \<lparr>continuous_abnormal_groups = [], current_group = None, translated_group_ids = {},
      flowchart_original_tables = [], pcb_terms_dict = [], fixed_translation_map = Map.empty\<rparr>"

text \<open>A translator that answers every text with the same translation, and one that fails.\<close>

definition fixed_backend :: "ustring \<Rightarrow> backend" where
  "fixed_backend answer = (\<lambda>text. Inr answer)"

definition failing_backend :: backend where
  "failing_backend = (\<lambda>text. Inl ''timeout'')"

text \<open>
  A scaling of sizes for the examples: 82 percent, rounded down. The truncated
  floating-point product of the source is one less at some sizes (150 is one). No
  statement below depends on the scaling: those about the whole run hold for every one.
\<close>

definition percent_82 :: "nat \<Rightarrow> nat" where
  "percent_82 v = 82 * v div 100"

text \<open>A body of paragraphs only, numbered from 0.\<close>

definition paragraphs_doc :: "Paragraph list \<Rightarrow> document" where
  "paragraphs_doc ps =
     \<lparr>body = map PRef [0..<length ps],
      pstore = (\<lambda>i. if i < length ps then ps ! i else plain_paragraph []),
      tstore = (\<lambda>t. \<lparr>tcells = [], trows = []\<rparr>), pnext = length ps, tnext = 0,
      sections = [], hf_parts = []\<rparr>"

text \<open>
  Two paragraphs indented by three spaces, with no number, and a third that is not
  indented and ends the group.
\<close>

definition scenario_b :: document where
  "scenario_b =
     paragraphs_doc
       [plain_paragraph (u ''   '' @ [0x6CE8, 0x610F, 0x4E8B, 0x9805]),
        plain_paragraph (u ''   '' @ [0x8ACB, 0x5C0F, 0x5FC3, 0x64CD, 0x4F5C]),
        plain_paragraph [0x7D50, 0x679C, 0xFF1A]]"

text \<open>
  The group of \<open>scenario_b\<close> with a picture in its first paragraph.
\<close>

definition seed_with_drawing :: document where
  "seed_with_drawing =
     paragraphs_doc
       [\<lparr>runs = [plain_run (u ''   '' @ [0x6CE8, 0x610F, 0x4E8B, 0x9805]), drawing_run [] []],
         palign = None, pstyle = None\<rparr>,
        plain_paragraph (u ''   '' @ [0x8ACB, 0x5C0F, 0x5FC3, 0x64CD, 0x4F5C])]"

text \<open>
  A paragraph with a label and a colon whose first run holds a picture and the first
  character of the label.
\<close>

definition label_in_drawing_run :: Paragraph where
  "label_in_drawing_run =
     \<lparr>runs = [drawing_run [0x5099] [], plain_run [0x8A3B, 0xFF1A]], palign = None, pstyle = None\<rparr>"



text \<open>
  A table of one row with one cell, and one whose cell spans two grid columns, so that
  \<open>row.cells\<close> gives it twice.
\<close>

definition one_cell_table :: "cell \<Rightarrow> table" where
  "one_cell_table c = \<lparr>tcells = [c], trows = [[0]]\<rparr>"

definition merged_cell_table :: "cell \<Rightarrow> table" where
  "merged_cell_table c = \<lparr>tcells = [c], trows = [[0, 0]]\<rparr>"

text \<open>Textboxes with one text node, paragraphs that hold them, and tables.\<close>

definition box :: "ustring \<Rightarrow> textbox" where
  "box t =
     \<lparr>tb_runs = [\<lparr>tr_texts = [t], tr_sz = None, tr_ascii = None, tr_hAnsi = None, tr_cs = None\<rparr>],
      tb_paras = [\<lparr>spacing_line = None, spacing_rule = None, jc = None\<rparr>]\<rparr>"

definition drawing_paragraph :: "textbox list \<Rightarrow> Paragraph" where
  "drawing_paragraph bs = \<lparr>runs = [drawing_run [] bs], palign = None, pstyle = None\<rparr>"

definition table_boxes :: "table \<Rightarrow> textbox list" where
  "table_boxes t = concat (map cell_boxes (tcells t))"

definition table_doc :: "table \<Rightarrow> document" where
  "table_doc t =
     \<lparr>body = [TRef 0], pstore = (\<lambda>i. plain_paragraph []),
      tstore = (\<lambda>k. if k = 0 then t else \<lparr>tcells = [], trows = []\<rparr>),
      pnext = 0, tnext = 1, sections = [], hf_parts = []\<rparr>"

text \<open>
  A flowchart of two cells: two textboxes in the first, a Chinese paragraph and a
  textbox in the second.
\<close>

definition flowchart_table :: table where
  "flowchart_table =
     \<lparr>tcells =
        [[CPara (drawing_paragraph [box [0x958B, 0x59CB], box [0x6AA2, 0x67E5]])],
         [CPara (plain_paragraph [0x5099, 0x8A3B]),
          CPara (drawing_paragraph [box [0x7D50, 0x675F]])]],
      trows = [[0, 1]]\<rparr>"

text \<open>A flowchart whose three textboxes sit in a table nested in its cell.\<close>

definition nested_flowchart_table :: table where
  "nested_flowchart_table =
     one_cell_table [CNested [box [0x958B, 0x59CB], box [0x6AA2, 0x67E5], box [0x7D50, 0x675F]]]"

text \<open>
  Tables with no Chinese character: one cell with three textboxes; one cell with two
  textboxes that spans two grid columns; one cell with an English paragraph and one
  textbox.
\<close>

definition english_flowchart_table :: table where
  "english_flowchart_table =
     one_cell_table
       [CPara (drawing_paragraph [box (u ''Start''), box (u ''Check''), box (u ''End'')])]"

definition merged_english_table :: table where
  "merged_english_table =
     merged_cell_table [CPara (drawing_paragraph [box (u ''Start''), box (u ''End'')])]"

definition english_table :: table where
  "english_table =
     one_cell_table
       [CPara (plain_paragraph (u ''Hello'')), CPara (drawing_paragraph [box (u ''Start'')])]"

section \<open>Facts about stripping\<close>

lemma rstrip_decomp: "rstrip t @ rev (takeWhile is_space (rev t)) = t"
proof -
  have "rev (takeWhile is_space (rev t) @ dropWhile is_space (rev t)) = t" by simp
  then show ?thesis unfolding rstrip_def by (simp del: takeWhile_dropWhile_id)
qed

lemma lstrip_head: "lstrip s = c # rest \<Longrightarrow> \<not> is_space c"
  unfolding lstrip_def using hd_dropWhile [of is_space s] by auto

lemma rstrip_last: "rstrip t = xs @ [c] \<Longrightarrow> \<not> is_space c"
proof -
  assume a: "rstrip t = xs @ [c]"
  then have "dropWhile is_space (rev t) = c # rev xs"
    unfolding rstrip_def by (metis rev.simps(2) rev_rev_ident rev_append append_Nil)
  then show ?thesis using hd_dropWhile [of is_space "rev t"] by auto
qed

lemma rstrip_cons_head: "rstrip t = c # rest \<Longrightarrow> \<exists>rest'. t = c # rest'"
  using rstrip_decomp [of t] by (metis append_Cons)

lemma strip_head: "strip s = c # rest \<Longrightarrow> \<not> is_space c"
  unfolding strip_def using rstrip_cons_head lstrip_head by blast

lemma strip_last: "strip s = xs @ [c] \<Longrightarrow> \<not> is_space c"
  unfolding strip_def using rstrip_last by blast

lemma lstrip_noop: "(\<And>c rest. s = c # rest \<Longrightarrow> \<not> is_space c) \<Longrightarrow> lstrip s = s"
  unfolding lstrip_def by (cases s) auto

lemma rstrip_noop: "(\<And>xs c. s = xs @ [c] \<Longrightarrow> \<not> is_space c) \<Longrightarrow> rstrip s = s"
  unfolding rstrip_def by (cases s rule: rev_cases) auto

lemma lstrip_strip: "lstrip (strip s) = strip s"
  by (rule lstrip_noop) (erule strip_head)

lemma rstrip_strip: "rstrip (strip s) = strip s"
  by (rule rstrip_noop) (erule strip_last)

lemma strip_idem: "strip (strip s) = strip s"
  by (simp add: strip_def [of "strip s"] lstrip_strip rstrip_strip)

lemma set_dropWhile_keep: "\<not> P c \<Longrightarrow> c \<in> set (dropWhile P xs) \<longleftrightarrow> c \<in> set xs"
  by (induction xs) auto

lemma set_strip_keep: "\<not> is_space c \<Longrightarrow> c \<in> set (strip s) \<longleftrightarrow> c \<in> set s"
  by (simp add: strip_def rstrip_def lstrip_def set_dropWhile_keep)

lemma is_chinese_set: "is_chinese s \<longleftrightarrow> (\<exists>c\<in>set s. 0x4e00 \<le> c \<and> c \<le> 0x9fff)"
  by (simp add: is_chinese_def list_ex_iff)

lemma chinese_not_space: "0x4e00 \<le> c \<Longrightarrow> c \<le> 0x9fff \<Longrightarrow> \<not> is_space c"
  by (simp add: is_space_def)

lemma is_chinese_strip: "is_chinese (strip s) = is_chinese s"
  unfolding is_chinese_set using set_strip_keep chinese_not_space by blast

section \<open>The numbering prefix\<close>

text \<open>
  C3. The extractor is documented to return dotted numbers (\<open>1.2.3.4\<close>, \<open>1.2.3\<close>,
  \<open>1.2\<close>, \<open>1.\<close>), and three of its four patterns match digits and escaped dots
  only. The second dot of the three-segment pattern is not escaped, so it stands for any
  character: on \<open>1.2 3mm\<close> the extractor returns \<open>1.2 3\<close>, with the space inside,
  where the digits-and-dots reading gives \<open>1.2\<close>.
\<close>

theorem get_step_number_unescaped_dot:
  "get_step_number (u ''1.2 3mm'') = u ''1.2 3''"
  by (simp add: u_def get_step_number_def number_patterns_def lstrip_def is_space_def
      rstrip_chars_def is_digit_def nd_ranges_def)

lemmas example_defs = paragraphs_doc_def plain_paragraph_def plain_run_def drawing_run_def
  empty_state_def fixed_backend_def failing_backend_def percent_82_def one_cell_table_def merged_cell_table_def
  label_in_drawing_run_def

lemmas string_defs = u_def strip_def lstrip_def rstrip_def is_space_def is_chinese_def
  para_text_def

section \<open>The translation engine\<close>

text \<open>
  C9. When no dictionary answers for a text, so that the translator is called, and the
  call raises, \<open>_translate_with_llm\<close> catches the exception and \<open>translate_text\<close>
  returns the text it was given, unchanged. The result is an ordinary text, so the pass
  that asked for it goes on with it.
\<close>

theorem backend_failure_keeps_text:
  assumes "translator text = Inl e"
    and "fixed_translation_map st (strip text) = None"
    and "check_pcb_terms (pcb_terms_dict st) (strip text) \<in> {None, Some []}"
  shows "translate_with_llm translator text = text \<and> translate_text translator st text = text"
  using assms by (auto simp: translate_with_llm_def translate_text_def Let_def)

theorem backend_failure_witness:
  "translate_with_llm failing_backend [0x6CE8, 0x610F] = [0x6CE8, 0x610F]
   \<and> translate_text failing_backend empty_state [0x6CE8, 0x610F] = [0x6CE8, 0x610F]"
  using backend_failure_keeps_text [of failing_backend "[0x6CE8, 0x610F]" "''timeout''" empty_state]
  by (simp add: example_defs string_defs)

section \<open>Ungrouped paragraphs\<close>

lemma find_no_index: "List.find (\<lambda>it. False) its = None"
  by (induction its) auto

lemma find_group_no_index: "find_group gs done None = None"
  by (induction gs) (simp_all add: find_no_index)

lemma translate_paragraph_no_index:
  "translate_paragraph translator st d i None =
     (st, place d i (translate_paragraph_no_index translator st (pstore d i)))"
  by (simp add: translate_paragraph_def translate_paragraph_no_index_def find_group_no_index)

lemma not_digit_colon: "\<not> is_digit 58" "\<not> is_digit 65306"
  by (simp_all add: is_digit_def nd_ranges_def)

lemma first_match_no_digit:
  "\<not> is_digit c \<Longrightarrow> first_match number_patterns (c # rest) = None"
  by (simp add: number_patterns_def)

lemma get_step_number_no_digit:
  assumes "\<not> is_digit c" "\<not> is_space c"
  shows "get_step_number (c # rest) = []"
  using assms by (simp add: get_step_number_def lstrip_def first_match_no_digit)

lemma check_colon_format_leading_colon:
  assumes "strip text = c # rest" "c = 58 \<or> c = 65306"
  shows "check_colon_format text = (False, False, [], [])"
  using assms by (auto simp: check_colon_format_def)

lemma place_untouched:
  "PRef i \<in> set (body d) \<Longrightarrow>
   place d i (pstore d i, Some e) =
     d\<lparr>body := insert_after (PRef i) (PRef (pnext d)) (body d),
       pstore := (pstore d)(pnext d := e), pnext := Suc (pnext d)\<rparr>"
  by simp





lemma clear_all_runs_no_picture:
  "\<not> list_ex has_picture (runs p) \<Longrightarrow> clear_all_runs p = clear_paragraph_text_keep_images p"
  by (simp add: clear_all_runs_def clear_paragraph_text_keep_images_def list_ex_iff)




text \<open>
  C10. A text whose first character after stripping is a colon (\<open>:\<close> or the full-width
  colon) is no colon format for the classifier, which wants a label of at least one
  character before the colon: it returns \<open>(False, False, "", "")\<close>. An ungrouped
  Chinese paragraph with such a text takes the no-colon path: the paragraph stays as it
  is, and one paragraph with the indent and the translation of the stripped text is
  inserted right after it.
\<close>

theorem leading_colon_takes_no_colon_path:
  assumes "strip (para_text (pstore d i)) = c # rest" and "c = 58 \<or> c = 65306"
    and "is_chinese (para_text (pstore d i))"
    and "find_group (continuous_abnormal_groups st) (translated_group_ids st) idx = None"
    and "PRef i \<in> set (body d)"
  shows "check_colon_format (para_text (pstore d i)) = (False, False, [], []) \<and>
         translate_regular_paragraph tr (pstore d i) =
           translate_no_colon tr (pstore d i) (para_text (pstore d i)) (strip (para_text (pstore d i))) \<and>
         translate_paragraph translator st d i idx =
           (st, d\<lparr>body := insert_after (PRef i) (PRef (pnext d)) (body d),
                  pstore := (pstore d)
                    (pnext d := english_paragraph (pstore d i)
                       (indent_of (para_text (pstore d i))
                          @ translate_text translator st (strip (para_text (pstore d i))))
                       None None),
                  pnext := Suc (pnext d)\<rparr>)"
proof -
  let ?p = "pstore d i"
  let ?raw = "para_text ?p"
  have ns: "\<not> is_space c" using assms(1) by (rule strip_head)
  have nd: "\<not> is_digit c" using assms(2) not_digit_colon by auto
  have cc: "check_colon_format ?raw = (False, False, [], [])"
    using assms(1,2) by (rule check_colon_format_leading_colon)
  have "strip (strip ?raw) = c # rest"
    using strip_idem [of ?raw] assms(1) by (rule trans)
  then have cc': "check_colon_format (strip ?raw) = (False, False, [], [])"
    using assms(2) by (rule check_colon_format_leading_colon)
  have reg: "translate_regular_paragraph tr ?p = translate_no_colon tr ?p ?raw (strip ?raw)" for tr
    by (simp add: translate_regular_paragraph_def Let_def cc')
  have sn: "get_step_number (strip ?raw) = []"
    using assms(1) nd ns by (simp add: get_step_number_no_digit)
  have nc: "translate_no_colon tr ?p ?raw (strip ?raw) =
      (?p, Some (english_paragraph ?p (indent_of ?raw @ tr (strip ?raw)) None None))" for tr
    by (simp add: translate_no_colon_def Let_def sn add_english_below_def)
  have ne: "strip ?raw \<noteq> []" using assms(1) by simp
  have "translate_paragraph translator st d i idx =
      (st, place d i (translate_regular_paragraph (translate_text translator st) ?p))"
    using assms(3,4) ne by (simp add: translate_paragraph_def Let_def)
  then show ?thesis using cc reg nc assms(5) by (simp del: place.simps add: place_untouched)
qed

theorem leading_colon_witness:
  "check_colon_format [0xFF1A, 0x6CE8, 0x610F] = (False, False, [], [])
   \<and> body (snd (translate_paragraph (fixed_backend (u ''Note'')) empty_state
       (paragraphs_doc [plain_paragraph [0xFF1A, 0x6CE8, 0x610F]]) 0 (Some 0))) = [PRef 0, PRef 1]
   \<and> para_text (pstore (snd (translate_paragraph (fixed_backend (u ''Note'')) empty_state
       (paragraphs_doc [plain_paragraph [0xFF1A, 0x6CE8, 0x610F]]) 0 (Some 0))) 1) = u ''Note''"
  using leading_colon_takes_no_colon_path
    [of "paragraphs_doc [plain_paragraph [0xFF1A, 0x6CE8, 0x610F]]" 0 "0xFF1A" "[0x6CE8, 0x610F]"
        empty_state "Some 0" "translate_text (fixed_backend (u ''Note'')) empty_state"
        "fixed_backend (u ''Note'')"]
  by (simp add: example_defs string_defs indent_of_def translate_text_def translate_with_llm_def
      english_paragraph_def)










section \<open>Grouping\<close>

lemma foldl_append_lstrip:
  "(\<forall>l\<in>set ls. lstrip l = l) \<Longrightarrow> foldl (\<lambda>result line. result @ lstrip line) a ls = a @ concat ls"
  by (induction ls arbitrary: a) auto

lemma merge_group_text_stripped:
  assumes "ps \<noteq> []" and "\<forall>p\<in>set ps. lstrip (full_text p) = full_text p"
  shows "merge_group_text ps =
    (if list_ex (\<lambda>p. get_step_number (full_text p) \<noteq> []) ps
     then concat (map full_text ps) else join [32] (map full_text ps))"
proof -
  have lines: "map (\<lambda>p. lstrip (full_text p)) ps = map full_text ps"
    using assms(2) by (simp cong: map_cong)
  obtain p rest where ps: "ps = p # rest" using assms(1) by (cases ps) auto
  have "foldl (\<lambda>result line. result @ lstrip line) (full_text p) (map full_text rest)
      = full_text p @ concat (map full_text rest)"
    using assms(2) ps by (intro foldl_append_lstrip) auto
  then show ?thesis
    using assms(1) by (simp add: merge_group_text_def lines Let_def) (simp add: ps)
qed

lemma inv_close: "grouping_inv d st \<Longrightarrow> grouping_inv d (close_current_group st)"
  by (auto simp: grouping_inv_def close_current_group_def closed_group_ok_def open_group_ok_def
      split: option.splits)

lemma inv_new: "grouping_inv d st \<Longrightarrow> item_of d it \<Longrightarrow> grouping_inv d (new_group st it)"
  by (auto simp: grouping_inv_def new_group_def open_group_ok_def split: option.splits)

lemma inv_record:
  assumes "grouping_inv d st"
  shows "grouping_inv d (record_long_space_paragraph st (pstore d i) i idx)"
proof -
  have it: "item_of d \<lparr>para_index = k, para = i, full_text = strip (para_text (pstore d i)),
      space_count = n\<rparr>" for k n
    by (simp add: item_of_def)
  show ?thesis
    using assms inv_close [OF assms] it
    by (auto simp: record_long_space_paragraph_def Let_def inv_new inv_close
        split: prod.splits option.splits)
      (auto simp: grouping_inv_def open_group_ok_def)
qed

lemma inv_fold:
  "grouping_inv d st \<Longrightarrow>
   grouping_inv d (fold (\<lambda>(k, i) st.
      if strip (para_text (pstore d i)) \<noteq> [] \<and> is_chinese (para_text (pstore d i))
      then record_long_space_paragraph st (pstore d i) i (Some k) else st) xs st)"
  by (induction xs arbitrary: st) (auto simp: inv_record split: prod.splits)

lemma inv_reset: "grouping_inv d (reset st)"
  by (simp add: grouping_inv_def reset_def)

lemma inv_finalize:
  "grouping_inv d st \<Longrightarrow> list_all (closed_group_ok d) (continuous_abnormal_groups (finalize_groups st))"
  by (auto simp: grouping_inv_def finalize_groups_def closed_group_ok_def open_group_ok_def
      split: option.splits)

lemma closed_groups_of_pass:
  "list_all (closed_group_ok d) (continuous_abnormal_groups (group_pass d (reset st0)))"
  unfolding group_pass_def by (intro inv_finalize inv_fold inv_reset)

text \<open>
  C2. Every group the grouping pass produces has at least one member, and its merged
  text, as stored and as the orchestrator computes it again, is: when a member's text
  carries a numbering prefix, the concatenation in member order of the stripped texts
  of the members' paragraphs, with no separator; otherwise these stripped texts joined by
  one space.
\<close>

theorem merged_text_of_groups:
  "\<forall>g\<in>set (continuous_abnormal_groups (group_pass d (reset st0))).
     paragraphs g \<noteq> [] \<and>
     merged_text g = Some (merge_group_text (paragraphs g)) \<and>
     merge_group_text (paragraphs g) =
       (if list_ex (\<lambda>it. get_step_number (full_text it) \<noteq> []) (paragraphs g)
        then concat (map (\<lambda>it. strip (para_text (pstore d (para it)))) (paragraphs g))
        else join [32] (map (\<lambda>it. strip (para_text (pstore d (para it)))) (paragraphs g)))"
proof
  fix g
  assume "g \<in> set (continuous_abnormal_groups (group_pass d (reset st0)))"
  then have ok: "closed_group_ok d g"
    using closed_groups_of_pass [of d st0] by (simp add: list_all_iff)
  then have ne: "paragraphs g \<noteq> []" and items: "\<forall>it\<in>set (paragraphs g). item_of d it"
    and mt: "merged_text g = Some (merge_group_text (paragraphs g))"
    by (simp_all add: closed_group_ok_def open_group_ok_def list_all_iff)
  have ft: "map full_text (paragraphs g) = map (\<lambda>it. strip (para_text (pstore d (para it)))) (paragraphs g)"
    using items by (simp add: item_of_def cong: map_cong)
  have "\<forall>it\<in>set (paragraphs g). lstrip (full_text it) = full_text it"
    using items by (simp add: item_of_def lstrip_strip)
  from merge_group_text_stripped [OF ne this] ne mt
  show "paragraphs g \<noteq> [] \<and>
     merged_text g = Some (merge_group_text (paragraphs g)) \<and>
     merge_group_text (paragraphs g) =
       (if list_ex (\<lambda>it. get_step_number (full_text it) \<noteq> []) (paragraphs g)
        then concat (map (\<lambda>it. strip (para_text (pstore d (para it)))) (paragraphs g))
        else join [32] (map (\<lambda>it. strip (para_text (pstore d (para it)))) (paragraphs g)))"
    unfolding ft [symmetric] by simp
qed

theorem merged_text_of_groups_witness:
  "map merged_text (continuous_abnormal_groups (group_pass scenario_b (reset empty_state))) =
     [Some ([0x6CE8, 0x610F, 0x4E8B, 0x9805] @ [32] @ [0x8ACB, 0x5C0F, 0x5FC3, 0x64CD, 0x4F5C])]"
  using merged_text_of_groups [of scenario_b empty_state]
  by (simp add: scenario_b_def example_defs string_defs group_pass_def reset_def enumerate_eq_zip
      doc_paragraphs_def record_long_space_paragraph_def has_long_spaces_in_runs_def
      lstrip_chars_def get_step_number_def number_patterns_def is_digit_def nd_ranges_def
      new_group_def close_current_group_def finalize_groups_def merge_group_text_def Let_def)

section \<open>Table cells with numbered items\<close>

lemma length_visit: "length (visit f k cs) = length cs"
  by (simp add: visit_def)

lemma length_fold_visit: "length (fold (visit f) ks cs) = length cs"
  by (induction ks arbitrary: cs) (simp_all add: length_visit)









lemmas number_defs = get_step_number_def number_patterns_def is_digit_def nd_ranges_def
  rstrip_chars_def extract_content_after_number_def separators_def





section \<open>The formatting passes\<close>

text \<open>
  The two passes that follow the translation write fonts and sizes and nothing else, so
  the texts, the drawings and the order of the body after the run are those the
  translating steps left, without the paragraphs the last step removes.
\<close>

lemma map_visit_same:
  assumes "\<And>x. h (g x) = h x"
  shows "map h (visit g k xs) = map h xs"
  by (simp add: visit_def map_update assms list_update_same_conv)

lemma map_fold_visit_same:
  assumes "\<And>x. h (g x) = h x"
  shows "map h (fold (\<lambda>s. visit g (sel s)) ss xs) = map h xs"
  by (induction ss arbitrary: xs) (simp_all add: map_visit_same [of h g] assms)

lemma map_fold_visit_same':
  assumes "\<And>x. h (g x) = h x"
  shows "map h (fold (visit g) ks xs) = map h xs"
  using map_fold_visit_same [of h g "\<lambda>k. k" ks xs] assms by simp

lemma fontless_shrink_run: "fontless_run (shrink_run scaled r) = fontless_run r"
  by (simp add: fontless_run_def shrink_run_def)

lemma fontless_set_font: "fontless_run (set_font r) = fontless_run r"
  by (simp add: fontless_run_def set_font_def Let_def)

lemma fontless_shrink_paragraph:
  "fontless_paragraph (shrink_paragraph scaled p) = fontless_paragraph p"
  by (simp add: fontless_paragraph_def shrink_paragraph_def Let_def fontless_shrink_run)

lemma fontless_font_paragraph: "fontless_paragraph (font_paragraph p) = fontless_paragraph p"
  by (simp add: fontless_paragraph_def font_paragraph_def fontless_set_font)

lemma fontless_font_textbox: "fontless_textbox (font_textbox tb) = fontless_textbox tb"
  by (simp add: fontless_textbox_def font_textbox_def)

lemma fontless_boxes_paragraph:
  "fontless_paragraph (map_para_boxes font_textbox p) = fontless_paragraph p"
proof -
  have "fontless_run (r\<lparr>rdraw := map_option (map font_textbox) (rdraw r)\<rparr>) = fontless_run r" for r
    by (cases "rdraw r") (simp_all add: fontless_run_def fontless_font_textbox)
  then show ?thesis by (simp add: fontless_paragraph_def map_para_boxes_def)
qed

lemma fontless_shrink_cell: "map fontless_child (shrink_cell scaled c) = map fontless_child c"
proof -
  have "fontless_child (case ch of CPara p \<Rightarrow> CPara (shrink_paragraph scaled p) | CNested bs \<Rightarrow> ch)
      = fontless_child ch" for ch
    by (cases ch) (simp_all add: fontless_shrink_paragraph)
  then show ?thesis by (simp add: shrink_cell_def)
qed

lemma fontless_font_cell: "map fontless_child (font_cell c) = map fontless_child c"
proof -
  have "fontless_child (case ch of CPara p \<Rightarrow> CPara (font_paragraph p) | CNested bs \<Rightarrow> ch)
      = fontless_child ch" for ch
    by (cases ch) (simp_all add: fontless_font_paragraph)
  then show ?thesis by (simp add: font_cell_def)
qed

lemma fontless_shrink_table:
  "fontless_table (shrink_table_english_font scaled t) = fontless_table t"
  by (simp add: fontless_table_def shrink_table_english_font_def
      map_fold_visit_same' [of "map fontless_child"] fontless_shrink_cell)

lemma fontless_font_table: "fontless_table (font_table t) = fontless_table t"
  by (simp add: fontless_table_def font_table_def
      map_fold_visit_same' [of "map fontless_child"] fontless_font_cell)

lemma fontless_boxes_table:
  "fontless_table (textboxes_in_table font_textbox False t) = fontless_table t"
proof -
  have "fontless_child (case ch of
           CPara p \<Rightarrow> if False then ch else CPara (map_para_boxes font_textbox p)
         | CNested bs \<Rightarrow> CNested (map font_textbox bs)) = fontless_child ch" for ch
    by (cases ch) (simp_all add: fontless_boxes_paragraph fontless_font_textbox)
  then show ?thesis by (simp add: fontless_table_def textboxes_in_table_def)
qed

lemma fontless_shrink_part:
  "fontless_part (part\<lparr>hf_tables := map (shrink_table_english_font scaled) (hf_tables part)\<rparr>)
   = fontless_part part"
  by (simp add: fontless_part_def fontless_shrink_table)

lemma fontless_font_part: "fontless_part (font_part part) = fontless_part part"
  by (simp add: fontless_part_def font_part_def fontless_font_table fontless_font_paragraph)

lemma fontless_doc_tstore:
  "fontless_table x = fontless_table (tstore d t) \<Longrightarrow>
   fontless_doc (d\<lparr>tstore := (tstore d)(t := x)\<rparr>) = fontless_doc d"
  by (simp add: fontless_doc_def fun_eq_iff)

lemma fontless_doc_pstore:
  "fontless_paragraph x = fontless_paragraph (pstore d i) \<Longrightarrow>
   fontless_doc (d\<lparr>pstore := (pstore d)(i := x)\<rparr>) = fontless_doc d"
  by (simp add: fontless_doc_def fun_eq_iff)

lemma fontless_doc_parts:
  "map fontless_part ps = map fontless_part (hf_parts d) \<Longrightarrow>
   fontless_doc (d\<lparr>hf_parts := ps\<rparr>) = fontless_doc d"
  by (simp add: fontless_doc_def)

lemma fontless_doc_fold:
  assumes "\<And>x d. fontless_doc (f x d) = fontless_doc d"
  shows "fontless_doc (fold f xs d) = fontless_doc d"
  by (induction xs arbitrary: d) (simp_all add: assms)

lemma fontless_shrink_tables: "fontless_doc (shrink_tables scaled d) = fontless_doc d"
proof -
  let ?d1 = "fold (\<lambda>t d. d\<lparr>tstore := (tstore d)
                                 (t := shrink_table_english_font scaled (tstore d t))\<rparr>)
                 (doc_tables d) d"
  have 1: "fontless_doc ?d1 = fontless_doc d"
    by (rule fontless_doc_fold) (simp add: fontless_doc_tstore fontless_shrink_table)
  have "fontless_doc (?d1\<lparr>hf_parts :=
              fold (\<lambda>hf parts.
                      visit (\<lambda>part. part\<lparr>hf_tables :=
                                map (shrink_table_english_font scaled) (hf_tables part)\<rparr>)
                        (hf_part hf) parts)
                (concat (map all_headers_footers (sections ?d1))) (hf_parts ?d1)\<rparr>) = fontless_doc ?d1"
    by (rule fontless_doc_parts) (rule map_fold_visit_same, rule fontless_shrink_part)
  then show ?thesis using 1 by (simp add: shrink_tables_def Let_def)
qed

lemma fontless_force_times: "fontless_doc (force_times_new_roman d) = fontless_doc d"
proof -
  let ?d1 = "fold (\<lambda>i d. d\<lparr>pstore := (pstore d)(i := font_paragraph (pstore d i))\<rparr>)
                 (doc_paragraphs d) d"
  let ?d2 = "fold (\<lambda>t d. d\<lparr>tstore := (tstore d)(t := font_table (tstore d t))\<rparr>)
                 (doc_tables ?d1) ?d1"
  let ?d3 = "?d2\<lparr>hf_parts :=
                    fold (\<lambda>hf parts. visit font_part (hf_part hf) parts)
                      (concat (map all_headers_footers (sections ?d2))) (hf_parts ?d2)\<rparr>"
  let ?step = "\<lambda>r d. case r of
                       PRef i \<Rightarrow>
                         d\<lparr>pstore := (pstore d)(i := map_para_boxes font_textbox (pstore d i))\<rparr>
                     | TRef t \<Rightarrow>
                         d\<lparr>tstore := (tstore d)
                             (t := textboxes_in_table font_textbox False (tstore d t))\<rparr>
                     | BRef b \<Rightarrow> d"
  have 1: "fontless_doc ?d1 = fontless_doc d"
    by (rule fontless_doc_fold) (simp add: fontless_doc_pstore fontless_font_paragraph)
  have 2: "fontless_doc ?d2 = fontless_doc ?d1"
    by (rule fontless_doc_fold) (simp add: fontless_doc_tstore fontless_font_table)
  have 3: "fontless_doc ?d3 = fontless_doc ?d2"
    by (rule fontless_doc_parts) (rule map_fold_visit_same, rule fontless_font_part)
  have "fontless_doc (?step r d') = fontless_doc d'" for r d'
    by (cases r) (simp_all add: fontless_doc_pstore fontless_doc_tstore
        fontless_boxes_paragraph fontless_boxes_table)
  then have 4: "fontless_doc (fold ?step (body ?d3) ?d3) = fontless_doc ?d3"
    by (rule fontless_doc_fold)
  show ?thesis
    unfolding force_times_new_roman_def Let_def using 1 2 3 4 by (simp only:)
qed

lemma fontless_docD:
  assumes "fontless_doc d' = fontless_doc d"
  shows "body d' = body d" and "pnext d' = pnext d" and "tnext d' = tnext d"
    and "sections d' = sections d"
    and "fontless_paragraph (pstore d' i) = fontless_paragraph (pstore d i)"
    and "fontless_table (tstore d' t) = fontless_table (tstore d t)"
proof -
  have "body (fontless_doc d') = body (fontless_doc d)" using assms by simp
  then show "body d' = body d" by (simp add: fontless_doc_def)
  have "pnext (fontless_doc d') = pnext (fontless_doc d)" using assms by simp
  then show "pnext d' = pnext d" by (simp add: fontless_doc_def)
  have "tnext (fontless_doc d') = tnext (fontless_doc d)" using assms by simp
  then show "tnext d' = tnext d" by (simp add: fontless_doc_def)
  have "sections (fontless_doc d') = sections (fontless_doc d)" using assms by simp
  then show "sections d' = sections d" by (simp add: fontless_doc_def)
  have "pstore (fontless_doc d') i = pstore (fontless_doc d) i" using assms by simp
  then show "fontless_paragraph (pstore d' i) = fontless_paragraph (pstore d i)"
    by (simp add: fontless_doc_def)
  have "tstore (fontless_doc d') t = tstore (fontless_doc d) t" using assms by simp
  then show "fontless_table (tstore d' t) = fontless_table (tstore d t)"
    by (simp add: fontless_doc_def)
qed

lemma para_text_fontless: "para_text (fontless_paragraph p) = para_text p"
  by (simp add: para_text_def fontless_paragraph_def fontless_run_def comp_def)

lemma has_picture_fontless:
  "list_ex has_picture (runs (fontless_paragraph p)) = list_ex has_picture (runs p)"
  by (simp add: fontless_paragraph_def fontless_run_def has_picture_def list_ex_iff)

lemma same_text:
  assumes "fontless_paragraph p' = fontless_paragraph p"
  shows "para_text p' = para_text p"
    and "list_ex has_picture (runs p') = list_ex has_picture (runs p)"
  using assms para_text_fontless [of p] para_text_fontless [of p']
    has_picture_fontless [of p] has_picture_fontless [of p'] by simp_all

lemma formatting_passes:
  "fontless_doc (force_times_new_roman (shrink_tables scaled d)) = fontless_doc d"
  by (simp add: fontless_force_times fontless_shrink_tables)

text \<open>What the three last steps make of a document, up to fonts and sizes.\<close>

lemma last_steps:
  "fontless_doc (remove_empty_paragraphs (force_times_new_roman (shrink_tables scaled d))) =
     fontless_doc (d\<lparr>body :=
         filter (\<lambda>r. case r of
                       PRef i \<Rightarrow>
                         \<not> (strip (para_text (pstore d i)) = []
                            \<and> \<not> list_ex has_picture (runs (pstore d i)))
                     | TRef t \<Rightarrow> True
                     | BRef b \<Rightarrow> False)
           (body d)\<rparr>)"
proof -
  let ?d7 = "force_times_new_roman (shrink_tables scaled d)"
  have f: "fontless_doc ?d7 = fontless_doc d" by (rule formatting_passes)
  have p: "para_text (pstore ?d7 i) = para_text (pstore d i)"
    "list_ex has_picture (runs (pstore ?d7 i)) = list_ex has_picture (runs (pstore d i))" for i
    using same_text [OF fontless_docD(5) [OF f, of i]] by simp_all
  have "(\<lambda>r. case r of
            PRef i \<Rightarrow> \<not> (strip (para_text (pstore ?d7 i)) = []
                          \<and> \<not> list_ex has_picture (runs (pstore ?d7 i)))
          | TRef t \<Rightarrow> True | BRef b \<Rightarrow> False)
      = (\<lambda>r. case r of
            PRef i \<Rightarrow> \<not> (strip (para_text (pstore d i)) = []
                          \<and> \<not> list_ex has_picture (runs (pstore d i)))
          | TRef t \<Rightarrow> True | BRef b \<Rightarrow> False)"
    by (rule ext) (simp add: p split: ref.split)
  then have "remove_empty_paragraphs ?d7 = ?d7\<lparr>body :=
         filter (\<lambda>r. case r of
                       PRef i \<Rightarrow>
                         \<not> (strip (para_text (pstore d i)) = []
                            \<and> \<not> list_ex has_picture (runs (pstore d i)))
                     | TRef t \<Rightarrow> True
                     | BRef b \<Rightarrow> False)
           (body d)\<rparr>"
    by (simp add: remove_empty_paragraphs_def fontless_docD(1) [OF f])
  moreover have "fontless_doc (d'\<lparr>body := b\<rparr>) = (fontless_doc d')\<lparr>body := b\<rparr>" for d' b
    by (simp add: fontless_doc_def)
  ultimately show ?thesis using f by simp
qed



subsection \<open>The whole run, from its translating steps\<close>

lemma document_fontless:
  "fontless_doc (snd (translate_document scaled translator st0 d)) =
     fontless_doc ((snd (translation_steps translator st0 d))\<lparr>body :=
         filter (\<lambda>r. case r of
                       PRef i \<Rightarrow>
                         \<not> (strip (para_text (pstore (snd (translation_steps translator st0 d)) i)) = []
                            \<and> \<not> list_ex has_picture
                                  (runs (pstore (snd (translation_steps translator st0 d)) i)))
                     | TRef t \<Rightarrow> True
                     | BRef b \<Rightarrow> False)
           (body (snd (translation_steps translator st0 d)))\<rparr>)"
  by (simp add: translate_document_def Let_def split_beta last_steps)

lemma document_state:
  "fst (translate_document scaled translator st0 d) = fst (translation_steps translator st0 d)"
  by (simp add: translate_document_def Let_def split_beta)

lemma document_text:
  "para_text (pstore (snd (translate_document scaled translator st0 d)) i) =
   para_text (pstore (snd (translation_steps translator st0 d)) i)"
  using same_text(1) [OF fontless_docD(5) [OF document_fontless, of scaled translator st0 d i]]
  by simp

lemma document_body:
  "body (snd (translate_document scaled translator st0 d)) =
     filter (\<lambda>r. case r of
                       PRef i \<Rightarrow>
                         \<not> (strip (para_text (pstore (snd (translation_steps translator st0 d)) i)) = []
                            \<and> \<not> list_ex has_picture
                                  (runs (pstore (snd (translation_steps translator st0 d)) i)))
                     | TRef t \<Rightarrow> True
                     | BRef b \<Rightarrow> False)
           (body (snd (translation_steps translator st0 d)))"
proof -
  let ?d5 = "snd (translation_steps translator st0 d)"
  let ?kept = "filter (\<lambda>r. case r of
                       PRef i \<Rightarrow>
                         \<not> (strip (para_text (pstore ?d5 i)) = []
                            \<and> \<not> list_ex has_picture (runs (pstore ?d5 i)))
                     | TRef t \<Rightarrow> True
                     | BRef b \<Rightarrow> False)
           (body ?d5)"
  have "body (snd (translate_document scaled translator st0 d)) = body (?d5\<lparr>body := ?kept\<rparr>)"
    by (rule fontless_docD(1) [OF document_fontless])
  also have "\<dots> = ?kept" by simp
  finally show ?thesis .
qed

lemma tb_texts_fontless: "tb_texts (fontless_textbox tb) = tb_texts tb"
  by (simp add: tb_texts_def fontless_textbox_def comp_def)

lemma run_boxes_fontless: "run_boxes (fontless_run r) = map fontless_textbox (run_boxes r)"
  by (cases "rdraw r") (simp_all add: run_boxes_def fontless_run_def)

lemma para_boxes_fontless:
  "para_boxes (fontless_paragraph p) = map fontless_textbox (para_boxes p)"
  by (simp add: para_boxes_def fontless_paragraph_def map_concat comp_def run_boxes_fontless)

lemma child_boxes_fontless: "child_boxes (fontless_child ch) = map fontless_textbox (child_boxes ch)"
  by (cases ch) (simp_all add: para_boxes_fontless)

lemma cell_boxes_fontless: "cell_boxes (map fontless_child c) = map fontless_textbox (cell_boxes c)"
  by (simp add: cell_boxes_def map_concat comp_def child_boxes_fontless)

lemma table_boxes_fontless:
  "map tb_texts (table_boxes (fontless_table t)) = map tb_texts (table_boxes t)"
  by (simp add: table_boxes_def fontless_table_def map_concat comp_def cell_boxes_fontless
      tb_texts_fontless)

lemma document_table_texts:
  "map tb_texts (table_boxes (tstore (snd (translate_document scaled translator st0 d)) t)) =
   map tb_texts (table_boxes (tstore (snd (translation_steps translator st0 d)) t))"
proof -
  let ?d' = "snd (translate_document scaled translator st0 d)"
  let ?d5 = "snd (translation_steps translator st0 d)"
  have "fontless_table (tstore ?d' t) = fontless_table (tstore ?d5 t)"
    using fontless_docD(6) [OF document_fontless, of scaled translator st0 d t] by simp
  then show ?thesis
    using table_boxes_fontless [of "tstore ?d' t"] table_boxes_fontless [of "tstore ?d5 t"]
    by simp
qed


section \<open>Evaluation of the passes on examples\<close>

lemmas example_defs2 = example_defs box_def drawing_paragraph_def table_boxes_def table_doc_def
  tb_texts_def

lemmas flowchart_defs = clone_and_translate_flowchart_def insert_page_break_after_def
  flowchart_cell_paragraphs_def cell_boxes_def para_boxes_def run_boxes_def qualifies_def
  translate_textbox_def adjust_textbox_formatting_def translate_text_def translate_with_llm_def
  add_run_def clear_all_runs_def set_run_text_def visited_def

lemmas grouping_defs = group_pass_def reset_def enumerate_eq_zip doc_paragraphs_def doc_tables_def
  record_long_space_paragraph_def has_long_spaces_in_runs_def lstrip_chars_def new_group_def
  close_current_group_def finalize_groups_def merge_group_text_def

lemmas paragraph_defs = paragraph_pass_def translate_paragraph_def translate_grouped_paragraphs_def
  translate_regular_paragraph_def translate_no_colon_def translate_colon_with_content_def
  translate_colon_no_content_def check_colon_format_def indent_of_def add_english_below_def
  english_paragraph_def clear_members_def clear_paragraph_text_keep_images_def has_picture_def
  add_run_def clear_all_runs_def set_run_text_def translate_text_def translate_with_llm_def

lemmas pass_defs = translation_steps_def table_pass_def is_flowchart_table_def
  count_textboxes_in_table_def FLOWCHART_TEXTBOX_THRESHOLD_def translate_table_def
  translate_header_footer_def translate_textboxes_in_doc_def textboxes_in_table_def
  map_para_boxes_def visit_def visited_def


section \<open>Grouped paragraphs\<close>

lemma find_group_unconsumed:
  "find_group gs done idx = Some (g, b) \<Longrightarrow> group_id g \<notin> done \<and> paragraphs g \<noteq> []"
  by (induction gs) (auto split: if_splits option.splits list.splits)

lemma clear_keep_images_idem:
  "clear_paragraph_text_keep_images (clear_paragraph_text_keep_images p)
   = clear_paragraph_text_keep_images p"
  by (simp add: clear_paragraph_text_keep_images_def set_run_text_def has_picture_def comp_def)

lemma clear_members_frame:
  "body (clear_members its d) = body d \<and> pnext (clear_members its d) = pnext d"
  unfolding clear_members_def by (induction its arbitrary: d) auto

lemma clear_members_pstore:
  "pstore (clear_members its d) m =
     (if m \<in> para ` set its then clear_paragraph_text_keep_images (pstore d m) else pstore d m)"
  unfolding clear_members_def
  by (induction its arbitrary: d) (auto simp: clear_keep_images_idem)

text \<open>
  What the handling of a group does when the orchestrator reaches its first paragraph,
  a paragraph of the body, with the group not yet consumed: the group's identifier joins
  the consumed ones, and no later search returns the group; one paragraph is inserted
  right after the first paragraph, with the indent and the stripped translation of the
  merged text (without its step number); the runs of the first paragraph that carry no
  drawing are emptied and the merged text is added to it, behind the indent only when
  the paragraph has no drawing; and every other member has its runs without a drawing
  emptied.
\<close>

lemma grouped_paragraphs_effect:
  assumes fg: "find_group (continuous_abnormal_groups st) (translated_group_ids st) idx
                 = Some (grp, True)"
    and ne: "strip (para_text (pstore d i)) \<noteq> []" and ch: "is_chinese (para_text (pstore d i))"
    and inb: "PRef i \<in> set (body d)" and fr: "i < pnext d"
    and mem: "\<forall>it\<in>set (tl (paragraphs grp)). para it < pnext d \<and> para it \<noteq> i"
    and merged: "merged = merge_group_text (paragraphs grp)"
    and num: "num = get_step_number (full_text (hd (paragraphs grp)))"
    and pure: "pure = (if num \<noteq> [] then extract_content_after_number merged num else merged)"
    and R: "R = translate_paragraph translator st d i idx"
  shows "translated_group_ids (fst R) = insert (group_id grp) (translated_group_ids st)"
    and "continuous_abnormal_groups (fst R) = continuous_abnormal_groups st"
    and "body (snd R) = insert_after (PRef i) (PRef (pnext d)) (body d)"
    and "pstore (snd R) i =
           add_run (clear_paragraph_text_keep_images (pstore d i))
             (if list_ex has_picture (runs (pstore d i)) then merged
              else indent_of (para_text (pstore d i)) @ merged)"
    and "para_text (pstore (snd R) (pnext d)) =
           indent_of (para_text (pstore d i)) @ strip (translate_text translator st pure)"
    and "\<forall>it\<in>set (tl (paragraphs grp)).
           pstore (snd R) (para it) = clear_paragraph_text_keep_images (pstore d (para it))"
    and "find_group (continuous_abnormal_groups (fst R)) (translated_group_ids (fst R)) idx'
           \<noteq> Some (grp, b)"
proof -
  let ?p = "pstore d i"
  let ?rew = "add_run (clear_paragraph_text_keep_images ?p)
             (if list_ex has_picture (runs ?p) then merged else indent_of (para_text ?p) @ merged)"
  let ?eng = "english_paragraph ?rew
      (indent_of (para_text ?p) @ strip (translate_text translator st pure)) None None"
  obtain first rest where ps: "paragraphs grp = first # rest"
    using find_group_unconsumed [OF fg] by (cases "paragraphs grp") auto
  have Req: "R = (st\<lparr>translated_group_ids := insert (group_id grp) (translated_group_ids st)\<rparr>,
                  clear_members rest (place d i (?rew, Some ?eng)))"
    using ne ch fg
    by (simp add: R translate_paragraph_def translate_grouped_paragraphs_def Let_def ps
        merged num pure clear_all_runs_no_picture add_english_below_def
        del: place.simps)
  show "translated_group_ids (fst R) = insert (group_id grp) (translated_group_ids st)"
    and "continuous_abnormal_groups (fst R) = continuous_abnormal_groups st"
    by (simp_all add: Req)
  show "body (snd R) = insert_after (PRef i) (PRef (pnext d)) (body d)"
    using inb by (simp add: Req clear_members_frame)
  have notin: "i \<notin> para ` set rest" "pnext d \<notin> para ` set rest"
    using mem ps by auto
  show "pstore (snd R) i = ?rew"
    using inb fr notin by (simp add: Req clear_members_pstore)
  have "pstore (snd R) (pnext d) = ?eng"
    using inb fr notin by (simp add: Req clear_members_pstore)
  then show "para_text (pstore (snd R) (pnext d)) =
           indent_of (para_text ?p) @ strip (translate_text translator st pure)"
    by (simp add: english_paragraph_def para_text_def)
  show "\<forall>it\<in>set (tl (paragraphs grp)).
           pstore (snd R) (para it) = clear_paragraph_text_keep_images (pstore d (para it))"
    using inb mem ps by (auto simp: Req clear_members_pstore)
  show "find_group (continuous_abnormal_groups (fst R)) (translated_group_ids (fst R)) idx'
           \<noteq> Some (grp, b)"
    using find_group_unconsumed [of "continuous_abnormal_groups (fst R)"
        "translated_group_ids (fst R)" idx' grp b]
    by (auto simp: Req)
qed






text \<open>
  C1. The first paragraph of a group is to get its indent followed by the merged text,
  with the runs that carry a drawing left alone. The code computes the indent
  (\<open>Preserve indentation\<close>), puts it before the merged text when the paragraph has no
  drawing, and puts it before the translation in every case; in the branch for a paragraph
  with a drawing it adds the merged text without the indent. On the group of two
  paragraphs indented by three spaces whose first paragraph holds a picture, the first
  paragraph ends up with the merged text and no indent, the translation inserted after it
  has the indent, and the second paragraph is emptied (the last step of the run then
  takes it out of the body, with the empty paragraphs).
\<close>

theorem grouped_seed_with_drawing_loses_indent:
  "para_text (pstore (snd (translate_document scaled (fixed_backend (u ''Note'')) empty_state
      seed_with_drawing)) 0) =
     [0x6CE8, 0x610F, 0x4E8B, 0x9805] @ [32] @ [0x8ACB, 0x5C0F, 0x5FC3, 0x64CD, 0x4F5C]
   \<and> para_text (pstore (snd (translate_document scaled (fixed_backend (u ''Note'')) empty_state
      seed_with_drawing)) 2) = u ''   Note''
   \<and> para_text (pstore (snd (translate_document scaled (fixed_backend (u ''Note'')) empty_state
      seed_with_drawing)) 1) = []
   \<and> body (snd (translate_document scaled (fixed_backend (u ''Note'')) empty_state
      seed_with_drawing)) = [PRef 0, PRef 2]"
  unfolding document_text document_body
  by (simp add: seed_with_drawing_def example_defs string_defs
      number_defs grouping_defs paragraph_defs pass_defs Let_def)

section \<open>Flowchart tables\<close>

text \<open>
  C4. \<open>clone_and_translate_flowchart\<close> is to translate, in the clone, the Chinese
  paragraphs of every cell and every text node of every textbox. Its \<open>return\<close>
  stands inside the loop over the textboxes, so it returns after the first textbox of the
  first cell that has one. On the flowchart of two cells, neither of them merged, with
  three textboxes, the clone has its first textbox translated; the second textbox of the
  first cell, and the paragraph and the textbox of the second cell, keep their Chinese
  text.
\<close>

theorem flowchart_clone_returns_early:
  "map tb_texts (table_boxes (tstore (snd
      (clone_and_translate_flowchart (fixed_backend (u ''EN'')) empty_state
         (table_doc flowchart_table) 0)) 1)) =
     [[u ''EN''], [[0x6AA2, 0x67E5]], [[0x7D50, 0x675F]]]
   \<and> map (map para_text \<circ> cell_paragraphs) (tcells (tstore (snd
      (clone_and_translate_flowchart (fixed_backend (u ''EN'')) empty_state
         (table_doc flowchart_table) 0)) 1)) =
     [[[]], [[0x5099, 0x8A3B], []]]"
  by (simp add: flowchart_table_def example_defs2 flowchart_defs string_defs Let_def
      cell_paragraphs_def)

section \<open>The original of a flowchart\<close>

text \<open>The clone function itself leaves every table the document had as it was.\<close>

lemma clone_keeps_original:
  assumes "t < tnext d"
  shows "tstore (snd (clone_and_translate_flowchart translator st d t')) t = tstore d t \<and>
         tnext (snd (clone_and_translate_flowchart translator st d t')) = Suc (tnext d) \<and>
         flowchart_original_tables (fst (clone_and_translate_flowchart translator st d t'))
           = flowchart_original_tables st @ [t']"
  using assms by (simp add: clone_and_translate_flowchart_def insert_page_break_after_def Let_def)

text \<open>
  C5. The textboxes of the original of a flowchart are to be translated by no pass: the
  clone function records the original, and the generic textbox pass is to leave out its
  textboxes (\<open># Skip original flowchart tables\<close>). The pass compares the nearest
  table above a textbox with the recorded tables, while the count that makes a table a
  flowchart, and the clone, take the textboxes below a cell at any depth. On a flowchart
  whose three textboxes sit in a table nested in its cell, the table is recorded as an
  original and the run still translates all three textboxes of the original: the
  nearest table above them is the nested one, which is never recorded.
\<close>

theorem nested_original_textboxes_translated:
  "map tb_texts (table_boxes (tstore (snd (translate_document scaled (fixed_backend (u ''EN''))
      empty_state (table_doc nested_flowchart_table))) 0)) =
     [[u ''EN''], [u ''EN''], [u ''EN'']]
   \<and> flowchart_original_tables (fst (translate_document scaled (fixed_backend (u ''EN''))
      empty_state (table_doc nested_flowchart_table))) = [0]"
  unfolding document_table_texts document_state
  by (simp add: nested_flowchart_table_def example_defs2
      flowchart_defs string_defs grouping_defs paragraph_defs pass_defs Let_def)

section \<open>Documents with no Chinese text\<close>

lemma fold_unchanged: "(\<And>x. x \<in> set xs \<Longrightarrow> f x s = s) \<Longrightarrow> fold f xs s = s"
  by (induction xs) auto

lemma fold_visit_unchanged:
  assumes "\<And>c. c \<in> set cs \<Longrightarrow> f c = c"
  shows "fold (visit f) ks cs = cs"
  by (rule fold_unchanged) (simp add: visit_def assms)

lemma finalize_reset: "finalize_groups (reset st) = reset st"
  by (simp add: finalize_groups_def reset_def)

lemma translate_text_not_chinese: "\<not> is_chinese t \<Longrightarrow> translate_text translator st t = t"
  by (simp add: translate_text_def)

lemma group_pass_clean:
  assumes "list_all (\<lambda>i. clean_paragraph (pstore d i)) (doc_paragraphs d)"
  shows "group_pass d (reset st0) = reset st0"
proof -
  have "fold (\<lambda>(k, i) st.
                if strip (para_text (pstore d i)) \<noteq> [] \<and> is_chinese (para_text (pstore d i))
                then record_long_space_paragraph st (pstore d i) i (Some k)
                else st)
          (enumerate 0 (doc_paragraphs d)) (reset st0) = reset st0"
    using assms
    by (intro fold_unchanged) (auto simp: list_all_iff clean_paragraph_def in_set_enumerate_eq)
  then show ?thesis by (simp add: group_pass_def finalize_reset)
qed

lemma paragraph_pass_clean:
  assumes "list_all (\<lambda>i. clean_paragraph (pstore d i)) (doc_paragraphs d)"
  shows "paragraph_pass translator (st, d) = (st, d)"
  unfolding paragraph_pass_def using assms
  by (intro fold_unchanged)
    (auto simp: list_all_iff clean_paragraph_def in_set_enumerate_eq translate_paragraph_def)

lemma cell_paragraphs_clean:
  "list_all clean_child c \<Longrightarrow> filter qualifies (cell_paragraphs c) = []"
proof (induction c)
  case Nil
  then show ?case by (simp add: cell_paragraphs_def)
next
  case (Cons ch c)
  then show ?case
    by (cases ch) (auto simp: cell_paragraphs_def qualifies_def clean_paragraph_def)
qed

lemma translate_table_clean:
  assumes "clean_table t"
  shows "translate_table translator st t = t"
proof -
  have "fold (visit (translate_cell translator st)) (visited t) (tcells t) = tcells t"
    using assms
    by (intro fold_visit_unchanged)
      (simp add: clean_table_def list_all_iff translate_cell_def cell_paragraphs_clean)
  then show ?thesis by (simp add: translate_table_def)
qed

lemma table_pass_clean:
  assumes "list_all (\<lambda>t. clean_table (tstore d t)) (doc_tables d)"
    and "list_all (\<lambda>t. \<not> is_flowchart_table (tstore d t)) (doc_tables d)"
  shows "table_pass translator (st, d) = (st, d)"
  unfolding table_pass_def using assms
  by (intro fold_unchanged) (auto simp: list_all_iff translate_table_clean)

lemma hf_paragraph_clean: "clean_paragraph p \<Longrightarrow> hf_paragraph tr p = [p]"
  by (simp add: hf_paragraph_def clean_paragraph_def)

lemma concat_singletons: "(\<And>x. x \<in> set xs \<Longrightarrow> f x = [x]) \<Longrightarrow> concat (map f xs) = xs"
  by (induction xs) auto

lemma hf_cell_clean: "list_all clean_child c \<Longrightarrow> hf_cell tr seen c = (c, seen)"
proof (induction c)
  case Nil
  then show ?case by simp
next
  case (Cons ch c)
  then show ?case
    by (cases ch) (auto simp: clean_paragraph_def is_chinese_strip)
qed

lemma hf_table_clean:
  assumes "clean_table t"
  shows "hf_table tr t = t"
proof -
  have "fold (\<lambda>k (cs, processed_texts).
                      if k < length cs
                      then (let (c, seen) = hf_cell tr processed_texts (cs ! k)
                            in (cs[k := c], seen))
                      else (cs, processed_texts))
                (visited t) (tcells t, []) = (tcells t, [])"
  proof (intro fold_unchanged)
    fix k assume "k \<in> set (visited t)"
    have "hf_cell tr [] (tcells t ! k) = (tcells t ! k, [])" if "k < length (tcells t)"
      using assms that by (intro hf_cell_clean) (simp add: clean_table_def list_all_length)
    then show "(case (tcells t, []) of
            (cs, processed_texts) \<Rightarrow>
              if k < length cs
              then (let (c, seen) = hf_cell tr processed_texts (cs ! k) in (cs[k := c], seen))
              else (cs, processed_texts)) = (tcells t, [])"
      by simp
  qed
  then show ?thesis by (simp add: hf_table_def)
qed

lemma translate_hf_part_clean:
  assumes "clean_header_footer part"
  shows "translate_hf_part tr part = part"
proof -
  have 1: "concat (map (hf_paragraph tr) (hf_paragraphs part)) = hf_paragraphs part"
    using assms by (intro concat_singletons)
      (simp add: clean_header_footer_def list_all_iff hf_paragraph_clean)
  have 2: "map (hf_table tr) (hf_tables part) = hf_tables part"
    using assms by (intro map_idI) (simp add: clean_header_footer_def list_all_iff hf_table_clean)
  show ?thesis by (simp add: translate_hf_part_def 1 2)
qed

lemma header_footer_clean:
  assumes "list_all clean_header_footer (hf_parts d)"
  shows "translate_header_footer translator st d = d"
proof -
  have "fold (\<lambda>hf parts.
                 if is_linked_to_previous hf then parts
                 else visit (translate_hf_part (translate_text translator st)) (hf_part hf) parts)
           (concat (map headers_and_footers (sections d))) (hf_parts d) = hf_parts d"
    using assms
    by (intro fold_unchanged) (simp add: visit_def list_all_iff translate_hf_part_clean)
  then show ?thesis by (simp add: translate_header_footer_def)
qed

lemma walk_texts_clean:
  "list_all (\<lambda>t. \<not> is_chinese t) ts \<Longrightarrow> walk_texts (translate_text translator st) ts = (ts, False)"
  by (induction ts) (auto simp: translate_text_not_chinese)

lemma walk_runs_clean:
  "list_all (\<lambda>t. \<not> is_chinese t) (concat (map tr_texts rs)) \<Longrightarrow>
   walk_runs (translate_text translator st) rs = (rs, False)"
  by (induction rs) (auto simp: walk_texts_clean)

lemma translate_textbox_clean:
  "clean_box tb \<Longrightarrow> translate_textbox (translate_text translator st) tb = tb"
  by (simp add: translate_textbox_def clean_box_def tb_texts_def walk_runs_clean)

lemma map_para_boxes_unchanged:
  assumes "\<And>tb. tb \<in> set (para_boxes p) \<Longrightarrow> f tb = tb"
  shows "map_para_boxes f p = p"
proof -
  have "r\<lparr>rdraw := map_option (map f) (rdraw r)\<rparr> = r" if "r \<in> set (runs p)" for r
  proof (cases "rdraw r")
    case None
    then show ?thesis by simp
  next
    case (Some bs)
    have "set bs \<subseteq> set (para_boxes p)"
      using that Some by (auto simp: para_boxes_def run_boxes_def)
    then have "map f bs = bs" using assms by (intro map_idI) auto
    then show ?thesis using Some by simp
  qed
  then have "map (\<lambda>r. r\<lparr>rdraw := map_option (map f) (rdraw r)\<rparr>) (runs p) = runs p"
    by (intro map_idI)
  then show ?thesis by (simp add: map_para_boxes_def)
qed

lemma map_para_boxes_clean:
  "clean_paragraph p \<Longrightarrow> map_para_boxes (translate_textbox (translate_text translator st)) p = p"
  by (intro map_para_boxes_unchanged)
    (simp add: clean_paragraph_def list_all_iff translate_textbox_clean)

lemma textboxes_in_table_clean:
  assumes "clean_table t"
  shows "textboxes_in_table (translate_textbox (translate_text translator st)) original t = t"
proof -
  have "(case ch of
           CPara p \<Rightarrow> if original then ch
                      else CPara (map_para_boxes (translate_textbox (translate_text translator st)) p)
         | CNested bs \<Rightarrow> CNested (map (translate_textbox (translate_text translator st)) bs)) = ch"
    if "clean_child ch" for ch
    using that
    by (cases ch) (auto simp: map_para_boxes_clean list_all_iff translate_textbox_clean intro!: map_idI)
  then have "map (map (\<lambda>ch. case ch of
           CPara p \<Rightarrow> if original then ch
                      else CPara (map_para_boxes (translate_textbox (translate_text translator st)) p)
         | CNested bs \<Rightarrow> CNested (map (translate_textbox (translate_text translator st)) bs)))
       (tcells t) = tcells t"
    using assms unfolding clean_table_def
    by (intro map_idI) (auto simp: list_all_iff)
  then show ?thesis by (simp add: textboxes_in_table_def)
qed

lemma PRef_in_body: "PRef i \<in> set (body d) \<Longrightarrow> i \<in> set (doc_paragraphs d)"
  by (force simp: doc_paragraphs_def)

lemma TRef_in_body: "TRef t \<in> set (body d) \<Longrightarrow> t \<in> set (doc_tables d)"
  by (force simp: doc_tables_def)

lemma textbox_pass_clean:
  assumes "list_all (\<lambda>i. clean_paragraph (pstore d i)) (doc_paragraphs d)"
    and "list_all (\<lambda>t. clean_table (tstore d t)) (doc_tables d)"
  shows "translate_textboxes_in_doc translator st d = d"
  unfolding translate_textboxes_in_doc_def
proof (intro fold_unchanged)
  fix r assume r: "r \<in> set (body d)"
  show "(case r of
          PRef i \<Rightarrow> d\<lparr>pstore := (pstore d)
                        (i := map_para_boxes (translate_textbox (translate_text translator st))
                                (pstore d i))\<rparr>
        | TRef t \<Rightarrow> d\<lparr>tstore := (tstore d)
                        (t := textboxes_in_table (translate_textbox (translate_text translator st))
                                (t \<in> set (flowchart_original_tables st)) (tstore d t))\<rparr>
        | BRef b \<Rightarrow> d) = d"
  proof (cases r)
    case (PRef i)
    then have "clean_paragraph (pstore d i)"
      using r assms(1) PRef_in_body by (auto simp: list_all_iff)
    then show ?thesis using PRef by (simp add: map_para_boxes_clean)
  next
    case (TRef t)
    then have "clean_table (tstore d t)"
      using r assms(2) TRef_in_body by (auto simp: list_all_iff)
    then show ?thesis using TRef by (simp add: textboxes_in_table_clean)
  next
    case (BRef b)
    then show ?thesis by simp
  qed
qed

lemma translation_steps_clean:
  assumes "no_chinese d"
    and "list_all (\<lambda>t. \<not> is_flowchart_table (tstore d t)) (doc_tables d)"
  shows "translation_steps translator st0 d = (reset st0, d)"
proof -
  have p: "list_all (\<lambda>i. clean_paragraph (pstore d i)) (doc_paragraphs d)"
    and t: "list_all (\<lambda>t. clean_table (tstore d t)) (doc_tables d)"
    and h: "list_all clean_header_footer (hf_parts d)"
    using assms(1) by (simp_all add: no_chinese_def)
  show ?thesis
    by (simp add: translation_steps_def group_pass_clean [OF p] paragraph_pass_clean [OF p]
        table_pass_clean [OF t assms(2)] header_footer_clean [OF h] textbox_pass_clean [OF p t])
qed

text \<open>
  C6, as stated, at two documents with no Chinese character. The one table of the first
  holds three textboxes: it counts as a flowchart whatever its language, and the run
  ends with a second table in the body, the clone. The one table of the second holds
  two textboxes in a cell that spans two grid columns: the count over \<open>row.cells\<close>
  is four, and the table is cloned too.
\<close>

theorem english_flowchart_cloned:
  "no_chinese (table_doc english_flowchart_table)
   \<and> body (snd (translate_document percent_82 (fixed_backend (u ''EN'')) empty_state
        (table_doc english_flowchart_table))) = [TRef 0, TRef 1]
   \<and> no_chinese (table_doc merged_english_table)
   \<and> count_textboxes_in_table merged_english_table = 4
   \<and> body (snd (translate_document percent_82 (fixed_backend (u ''EN'')) empty_state
        (table_doc merged_english_table))) = [TRef 0, TRef 1]"
  unfolding document_body
  by (simp add: english_flowchart_table_def merged_english_table_def example_defs2 flowchart_defs
      string_defs grouping_defs paragraph_defs pass_defs Let_def no_chinese_def clean_table_def
      clean_paragraph_def clean_box_def)

text \<open>
  C6, amended. For a document with no Chinese character in any of its texts and no
  table of the body that counts as a flowchart (three or more textboxes, counted over
  the cells \<open>row.cells\<close> gives), the run inserts no paragraph and clones no table:
  the state is the reset one, and up to the fonts and sizes of runs the document is the
  given one without the paragraphs of the body that are empty and hold no picture.
\<close>

theorem no_chinese_no_flowchart_kept:
  assumes "no_chinese d"
    and "list_all (\<lambda>t. \<not> is_flowchart_table (tstore d t)) (doc_tables d)"
  shows "fst (translate_document scaled translator st0 d) = reset st0
    \<and> fontless_doc (snd (translate_document scaled translator st0 d)) =
        fontless_doc (d\<lparr>body :=
          filter (\<lambda>r. case r of
                        PRef i \<Rightarrow>
                          \<not> (strip (para_text (pstore d i)) = []
                             \<and> \<not> list_ex has_picture (runs (pstore d i)))
                      | TRef t \<Rightarrow> True
                      | BRef b \<Rightarrow> False)
            (body d)\<rparr>)"
  unfolding document_fontless document_state translation_steps_clean [OF assms]
  by simp

theorem no_chinese_no_flowchart_witness:
  "fst (translate_document percent_82 (fixed_backend (u ''EN'')) empty_state
          (table_doc english_table)) = reset empty_state
   \<and> fontless_doc (snd (translate_document percent_82 (fixed_backend (u ''EN'')) empty_state
          (table_doc english_table))) = fontless_doc (table_doc english_table)"
  using no_chinese_no_flowchart_kept
    [of "table_doc english_table" percent_82 "fixed_backend (u ''EN'')" empty_state]
  by (simp add: english_table_def example_defs2 string_defs no_chinese_def clean_table_def
      clean_paragraph_def clean_box_def doc_paragraphs_def doc_tables_def para_boxes_def
      run_boxes_def is_flowchart_table_def count_textboxes_in_table_def cell_boxes_def
      FLOWCHART_TEXTBOX_THRESHOLD_def visited_def)

section \<open>A run with a translator that fails\<close>

text \<open>
  With a translator that raises on every call the passes still run to their end on the
  document of two indented paragraphs and a third: the group is merged, and the paragraph
  inserted for its translation holds the merged text itself, behind the indent.
\<close>

lemma failing_backend_run_completes:
  "body (snd (translate_document scaled failing_backend empty_state scenario_b))
     = [PRef 0, PRef 3, PRef 2]
   \<and> para_text (pstore (snd (translate_document scaled failing_backend empty_state scenario_b)) 3)
     = u ''   '' @ [0x6CE8, 0x610F, 0x4E8B, 0x9805] @ [32] @ [0x8ACB, 0x5C0F, 0x5FC3, 0x64CD, 0x4F5C]"
  unfolding document_text document_body
  by (simp add: scenario_b_def example_defs string_defs number_defs
      grouping_defs paragraph_defs pass_defs Let_def)

end
